theory Spec2Isabelle
  imports Main
begin

section \<open>JavaScript values and library primitives\<close>

text \<open>
  The backend is an Express application.  A handler reads strings from the request, calls
  the ORM (Sequelize), and answers with a status code and a JSON body.  JSON bodies are
  modelled as trees, so that the keys of a serialized answer can be inspected.  Numbers
  are mathematical integers: JavaScript numbers agree with them on every integer of
  magnitude below \<open>2^53\<close>, which covers ids, page numbers and counts.
\<close>

datatype json =
    JNull
  | JBool bool
  | JNum int
  | JStr string
  | JArr "json list"
  | JObj "(string \<times> json) list"

text \<open>All keys that occur anywhere in a JSON value.\<close>

fun json_keys :: "json \<Rightarrow> string list" where
  "json_keys JNull = []"
| "json_keys (JBool b) = []"
| "json_keys (JNum n) = []"
| "json_keys (JStr s) = []"
| "json_keys (JArr xs) = concat (map json_keys xs)"
| "json_keys (JObj kvs) = concat (map (\<lambda>kv. fst kv # json_keys (snd kv)) kvs)"

text \<open>A value of \<open>req.query\<close> after the sanitizers ran: absent, a string, a number or NaN.\<close>

datatype qval = QUndefined | QStr string | QNum int | QNaN

definition is_space :: "char \<Rightarrow> bool" where
  "is_space c = (c \<in> set [CHR '' '', CHR 0x09, CHR 0x0A, CHR 0x0B, CHR 0x0C, CHR 0x0D])"

text \<open>The value of a digit in the given radix (letters count from ten), if it is one.\<close>

definition digit_val :: "nat \<Rightarrow> char \<Rightarrow> nat option" where
  "digit_val radix c =
     (let n = (of_char c :: nat);
          v = (if 48 \<le> n \<and> n \<le> 57 then Some (n - 48)
               else if 97 \<le> n \<and> n \<le> 122 then Some (n - 87)
               else if 65 \<le> n \<and> n \<le> 90 then Some (n - 55)
               else None)
      in case v of None \<Rightarrow> None | Some d \<Rightarrow> if d < radix then Some d else None)"

definition strip_sign :: "string \<Rightarrow> bool \<times> string" where
  "strip_sign s =
     (case s of
        [] \<Rightarrow> (False, [])
      | c # cs \<Rightarrow> if c = CHR ''-'' then (True, cs)
                  else if c = CHR ''+'' then (False, cs)
                  else (False, s))"

text \<open>The longest prefix of digits, read in the radix; \<open>None\<close> when there is no digit.\<close>

definition parse_digits :: "nat \<Rightarrow> string \<Rightarrow> nat option" where
  "parse_digits radix s =
     (let ds = takeWhile (\<lambda>c. digit_val radix c \<noteq> None) s
      in if ds = [] then None
         else Some (foldl (\<lambda>acc c. case digit_val radix c of
                                       None \<Rightarrow> acc
                                     | Some d \<Rightarrow> acc * radix + d) 0 ds))"

text \<open>
  \<open>parseInt(string, radix)\<close> of ECMAScript on ASCII input: leading white space is
  skipped, a sign is read, a \<open>0x\<close> prefix selects radix 16 when no radix (or 0 or 16) is
  given, and the longest prefix of digits is the value.  \<open>None\<close> is NaN.
\<close>

definition js_parseInt :: "string \<Rightarrow> nat option \<Rightarrow> int option" where
  "js_parseInt s radix =
     (let (neg, t) = strip_sign (dropWhile is_space s);
          hex = (take 2 t = ''0x'' \<or> take 2 t = ''0X'');
          auto = (radix = None \<or> radix = Some 0);
          r = (if auto then (if hex then 16 else 10)
               else (case radix of None \<Rightarrow> 10 | Some k \<Rightarrow> k));
          u = (if hex \<and> r = 16 then drop 2 t else t)
      in if r < 2 \<or> 36 < r then None
         else case parse_digits r u of
                None \<Rightarrow> None
              | Some n \<Rightarrow> Some (if neg then - int n else int n))"

definition toUpperCase :: "string \<Rightarrow> string" where
  "toUpperCase s =
     map (\<lambda>c. let n = (of_char c :: nat)
               in if 97 \<le> n \<and> n \<le> 122 then char_of (n - 32) else c) s"

text \<open>\<open>String.prototype.split\<close> with a one-character separator.\<close>

fun split_on :: "char \<Rightarrow> string \<Rightarrow> string list" where
  "split_on sep [] = [[]]"
| "split_on sep (c # cs) =
     (if c = sep then [] # split_on sep cs
      else (case split_on sep cs of
              [] \<Rightarrow> [[c]]
            | w # ws \<Rightarrow> (c # w) # ws))"

text \<open>The operator \<open>||\<close> on a number that may be NaN, and on a string that may be absent.\<close>

definition num_or :: "int option \<Rightarrow> int \<Rightarrow> int" where
  "num_or v d = (case v of None \<Rightarrow> d | Some n \<Rightarrow> if n = 0 then d else n)"

definition str_or :: "string option \<Rightarrow> string \<Rightarrow> string" where
  "str_or v d = (case v of None \<Rightarrow> d | Some s \<Rightarrow> if s = [] then d else s)"

section \<open>The task store and the listing query\<close>

text \<open>
  A row of the table \<open>tasks\<close> (model \<open>Task\<close>).  Dates and timestamps are
  integers (a day number, an instant); \<open>priority\<close> is the stored string.
\<close>

record task =
  task_id :: int
  userId :: int
  title :: string
  description :: "string option"
  priority :: string
  endDate :: int
  createdAt :: int
  updatedAt :: int

datatype db_error = DatabaseError

text \<open>
  The SQL fragment of \<open>getTasks\<close>:
  \<open>CASE WHEN priority = 'high' THEN 1 WHEN priority = 'medium' THEN 2
  WHEN priority = 'low' THEN 3 END\<close>; no branch matching gives NULL.
\<close>

definition priority_case :: "string \<Rightarrow> int option" where
  "priority_case p =
     (if p = ''high'' then Some 1
      else if p = ''medium'' then Some 2
      else if p = ''low'' then Some 3
      else None)"

text \<open>An element of the \<open>order\<close> option: the CASE literal or a model attribute.\<close>

datatype order_expr = PriorityCase | Column string

text \<open>
  The key a row is ordered by.  \<open>getTasks\<close> orders by the CASE literal, by
  \<open>endDate\<close> or by \<open>createdAt\<close> only (lemma \<open>orderClause_cases\<close> below);
  ordering by any other attribute is outside this model and reported as \<open>None\<close>.
\<close>

definition order_key :: "order_expr \<Rightarrow> (task \<Rightarrow> int option) option" where
  "order_key e =
     (case e of
        PriorityCase \<Rightarrow> Some (\<lambda>t. priority_case (priority t))
      | Column c \<Rightarrow>
          if c = ''endDate'' then Some (\<lambda>t. Some (endDate t))
          else if c = ''createdAt'' then Some (\<lambda>t. Some (createdAt t))
          else None)"

text \<open>The direction of an ordering, read without regard to case; \<open>True\<close> is descending.\<close>

definition direction :: "string \<Rightarrow> bool option" where
  "direction d =
     (let u = toUpperCase d
      in if u = ''ASC'' then Some False
         else if u = ''DESC'' then Some True
         else None)"

text \<open>PostgreSQL compares NULL as larger than every value (last ascending, first descending).\<close>

fun key_le :: "int option \<Rightarrow> int option \<Rightarrow> bool" where
  "key_le k None = True"
| "key_le None (Some b) = False"
| "key_le (Some a) (Some b) = (a \<le> b)"

text \<open>
  ORDER BY, as an insertion sort under a comparison: among the orders SQL allows for rows
  with equal keys it keeps the stored one.
\<close>

fun insert_by :: "('a \<Rightarrow> 'a \<Rightarrow> bool) \<Rightarrow> 'a \<Rightarrow> 'a list \<Rightarrow> 'a list" where
  "insert_by le x [] = [x]"
| "insert_by le x (y # ys) = (if le x y then x # y # ys else y # insert_by le x ys)"

fun sort_by :: "('a \<Rightarrow> 'a \<Rightarrow> bool) \<Rightarrow> 'a list \<Rightarrow> 'a list" where
  "sort_by le [] = []"
| "sort_by le (x # xs) = insert_by le x (sort_by le xs)"

definition row_le :: "(task \<Rightarrow> int option) \<Rightarrow> bool \<Rightarrow> task \<Rightarrow> task \<Rightarrow> bool" where
  "row_le key desc a b = (if desc then key_le (key b) (key a) else key_le (key a) (key b))"

text \<open>
  \<open>Task.findAndCountAll({where: {userId}, limit, offset, order})\<close>: the count of the
  rows that match \<open>where\<close>, and the page of them.  PostgreSQL refuses a negative LIMIT
  or OFFSET, and Sequelize an unknown direction.
\<close>

definition findAndCountAll ::
  "task list \<Rightarrow> int \<Rightarrow> int \<Rightarrow> int \<Rightarrow> order_expr \<times> string \<Rightarrow> db_error + (nat \<times> task list)" where
  "findAndCountAll tasks uid lim off ord =
     (let matching = filter (\<lambda>t. userId t = uid) tasks
      in case (order_key (fst ord), direction (snd ord)) of
           (Some key, Some desc) \<Rightarrow>
             if lim < 0 \<or> off < 0 then Inl DatabaseError
             else Inr (length matching,
                       take (nat lim) (drop (nat off) (sort_by (row_le key desc) matching)))
         | _ \<Rightarrow> Inl DatabaseError)"

text \<open>\<open>Task.findOne({where: {id, userId}})\<close>.\<close>

definition findOne :: "task list \<Rightarrow> int \<Rightarrow> int \<Rightarrow> task option" where
  "findOne tasks tid uid = find (\<lambda>t. task_id t = tid \<and> userId t = uid) tasks"

section \<open>Users, the environment, requests and responses\<close>

text \<open>
  An instance of the model \<open>User\<close>.  \<open>password\<close> is \<open>None\<close> on an instance that was
  fetched with \<open>attributes: {exclude: ['password']}\<close>; a stored row always has one.
\<close>

record user =
  user_id :: int
  name :: string
  email :: string
  password :: "string option"
  user_createdAt :: int

text \<open>The database: both tables and the two id sequences.\<close>

record db =
  users :: "user list"
  tasks :: "task list"
  users_seq :: int
  tasks_seq :: int

datatype jwt_error = TokenExpiredError | JsonWebTokenError | OtherJwtError

text \<open>
  What the handlers take from outside the repository, as parameters: the JWT library
  under the server's secret at the time of the request, bcrypt, the clock, the deployment
  mode and the validators of validator.js that are not spelled out here.
\<close>

record env =
  jwt_verify :: "string \<Rightarrow> jwt_error + int"
  jwt_sign :: "int \<Rightarrow> string"
  bcrypt_genSalt :: "nat \<Rightarrow> string"
  bcrypt_hash :: "string \<Rightarrow> string \<Rightarrow> string"
  bcrypt_compare :: "string \<Rightarrow> string \<Rightarrow> bool"
  isEmail :: "string \<Rightarrow> bool"
  isISO8601 :: "string \<Rightarrow> bool"
  toDate :: "string \<Rightarrow> int option"
  now :: int
  production :: bool

text \<open>The parts of a request the auth gate reads.\<close>

record request =
  cookies_token :: "string option"
  headers_authorization :: "string option"

record cookie =
  cookie_name :: string
  cookie_value :: string
  cookie_expires :: int
  cookie_httpOnly :: bool
  cookie_sameSite :: "string option"
  cookie_secure :: bool

record response =
  res_status :: int
  res_body :: json
  res_cookie :: "cookie option"

definition json_res :: "int \<Rightarrow> json \<Rightarrow> response" where
  "json_res code j = \<lparr>res_status = code, res_body = j, res_cookie = None\<rparr>"

text \<open>The body \<open>{success: false, message}\<close> every failure but a validation failure has.\<close>

definition failure :: "int \<Rightarrow> string \<Rightarrow> response" where
  "failure code msg = json_res code (JObj [(''success'', JBool False), (''message'', JStr msg)])"

definition truthy :: "string option \<Rightarrow> bool" where
  "truthy v = (case v of None \<Rightarrow> False | Some s \<Rightarrow> s \<noteq> [])"

section \<open>The auth gate (middleware \<open>protect\<close>)\<close>

text \<open>\<open>User.findByPk(id, {attributes: {exclude: ['password']}})\<close>.\<close>

definition findByPk_exclude_password :: "user list \<Rightarrow> int \<Rightarrow> user option" where
  "findByPk_exclude_password us uid =
     map_option (\<lambda>u. u\<lparr>password := None\<rparr>) (find (\<lambda>u. user_id u = uid) us)"

text \<open>
  The fallback of \<open>protect\<close>: the header must be non-empty and start with \<open>Bearer\<close>;
  the token is the second piece of the header split at spaces, if there is one.
\<close>

definition bearer_token :: "string option \<Rightarrow> string option" where
  "bearer_token h =
     (case h of
        None \<Rightarrow> None
      | Some a \<Rightarrow>
          if a \<noteq> [] \<and> take 6 a = ''Bearer''
          then (case split_on CHR '' '' a of
                  p # t # ps \<Rightarrow> Some t
                | _ \<Rightarrow> None)
          else None)"

definition request_token :: "request \<Rightarrow> string option" where
  "request_token req =
     (if truthy (cookies_token req) then cookies_token req
      else bearer_token (headers_authorization req))"

definition protect :: "env \<Rightarrow> db \<Rightarrow> request \<Rightarrow> response + user" where
  "protect e d req =
     (case request_token req of
        None \<Rightarrow> Inl (failure 401 ''Not authorized to access this route. Please login.'')
      | Some token \<Rightarrow>
          if token = []
          then Inl (failure 401 ''Not authorized to access this route. Please login.'')
          else (case jwt_verify e token of
                  Inl TokenExpiredError \<Rightarrow>
                    Inl (failure 401 ''Token has expired. Please login again.'')
                | Inl JsonWebTokenError \<Rightarrow>
                    Inl (failure 401 ''Invalid token. Please login again.'')
                | Inl OtherJwtError \<Rightarrow>
                    Inl (failure 401 ''Not authorized to access this route.'')
                | Inr decoded_id \<Rightarrow>
                    (case findByPk_exclude_password (users d) decoded_id of
                       None \<Rightarrow> Inl (failure 401 ''User not found. Token is invalid.'')
                     | Some u \<Rightarrow> Inr u)))"

section \<open>Validation (express-validator chains and the middleware \<open>validate\<close>)\<close>

text \<open>A validation error: the field and the message.\<close>

type_synonym verror = "string \<times> string"

text \<open>
  \<open>isInt(str, {min, max})\<close> of validator.js: the string matches \<open>^[-+]?[0-9]+$\<close> and
  its value is within the bounds that are given.
\<close>

definition isInt :: "string \<Rightarrow> int option \<Rightarrow> int option \<Rightarrow> bool" where
  "isInt str mn mx =
     (let ds = snd (strip_sign str)
      in ds \<noteq> [] \<and> list_all (\<lambda>c. digit_val 10 c \<noteq> None) ds \<and>
         (case js_parseInt str (Some 10) of
            None \<Rightarrow> False
          | Some n \<Rightarrow>
              (case mn of None \<Rightarrow> True | Some lo \<Rightarrow> lo \<le> n) \<and>
              (case mx of None \<Rightarrow> True | Some hi \<Rightarrow> n \<le> hi)))"

text \<open>The sanitizer \<open>toInt()\<close>: \<open>parseInt(str, 10)\<close>.\<close>

definition toInt :: "string \<Rightarrow> qval" where
  "toInt str = (case js_parseInt str (Some 10) of None \<Rightarrow> QNaN | Some n \<Rightarrow> QNum n)"

text \<open>The query string as it arrives, and as the handler reads it after the chains ran.\<close>

record raw_query =
  raw_page :: "string option"
  raw_limit :: "string option"
  raw_sortBy :: "string option"
  raw_order :: "string option"

record query =
  query_page :: qval
  query_limit :: qval
  query_sortBy :: "string option"
  query_order :: "string option"

text \<open>
  \<open>paginationValidation\<close>: every chain is \<open>optional()\<close>, so an absent parameter is
  neither checked nor sanitized.  The result is the sanitized query and the errors.
\<close>

definition paginationValidation :: "raw_query \<Rightarrow> query \<times> verror list" where
  "paginationValidation rq =
     (\<lparr>query_page = (case raw_page rq of None \<Rightarrow> QUndefined | Some s \<Rightarrow> toInt s),
       query_limit = (case raw_limit rq of None \<Rightarrow> QUndefined | Some s \<Rightarrow> toInt s),
       query_sortBy = raw_sortBy rq,
       query_order = raw_order rq\<rparr>,
      (case raw_page rq of
         None \<Rightarrow> []
       | Some s \<Rightarrow> if isInt s (Some 1) None then []
                   else [(''page'', ''Page must be a positive integer'')]) @
      (case raw_limit rq of
         None \<Rightarrow> []
       | Some s \<Rightarrow> if isInt s (Some 1) (Some 100) then []
                   else [(''limit'', ''Limit must be between 1 and 100'')]) @
      (case raw_sortBy rq of
         None \<Rightarrow> []
       | Some s \<Rightarrow> if s \<in> set [''end_date'', ''priority'', ''created_at''] then []
                   else [(''sortBy'', ''SortBy must be end_date, priority, or created_at'')]) @
      (case raw_order rq of
         None \<Rightarrow> []
       | Some s \<Rightarrow> if s \<in> set [''asc'', ''desc''] then []
                   else [(''order'', ''Order must be asc or desc'')]))"

definition validation_failed :: "verror list \<Rightarrow> response" where
  "validation_failed errors =
     json_res 400
       (JObj [(''success'', JBool False),
              (''message'', JStr ''Validation failed''),
              (''errors'',
               JArr (map (\<lambda>err. JObj [(''field'', JStr (fst err)),
                                        (''message'', JStr (snd err))]) errors))])"

text \<open>The middleware \<open>validate\<close>: \<open>Some\<close> response stops the request, \<open>None\<close> is \<open>next()\<close>.\<close>

definition validate :: "verror list \<Rightarrow> response option" where
  "validate errors = (if errors \<noteq> [] then Some (validation_failed errors) else None)"

section \<open>The task controller\<close>

definition parseInt :: "qval \<Rightarrow> int option" where
  "parseInt v =
     (case v of
        QUndefined \<Rightarrow> None
      | QNaN \<Rightarrow> None
      | QNum n \<Rightarrow> Some n
      | QStr s \<Rightarrow> js_parseInt s None)"

definition sortMapping :: "string \<Rightarrow> string option" where
  "sortMapping =
     map_of [(''end_date'', ''endDate''), (''priority'', ''priority''),
             (''created_at'', ''createdAt'')]"

definition task_json :: "string list \<Rightarrow> task \<Rightarrow> json" where
  "task_json attributes t =
     JObj (filter (\<lambda>kv. fst kv \<in> set attributes)
       [(''id'', JNum (task_id t)),
        (''userId'', JNum (userId t)),
        (''title'', JStr (title t)),
        (''description'', (case description t of None \<Rightarrow> JNull | Some s \<Rightarrow> JStr s)),
        (''priority'', JStr (priority t)),
        (''endDate'', JNum (endDate t)),
        (''createdAt'', JNum (createdAt t)),
        (''updatedAt'', JNum (updatedAt t))])"

definition all_attributes :: "string list" where
  "all_attributes =
     [''id'', ''userId'', ''title'', ''description'', ''priority'', ''endDate'',
      ''createdAt'', ''updatedAt'']"

text \<open>The answer of \<open>getTasks\<close> on success; \<open>Math.ceil(count / limit)\<close> for the pages.\<close>

definition tasks_ok :: "int \<Rightarrow> int \<Rightarrow> nat \<Rightarrow> task list \<Rightarrow> response" where
  "tasks_ok page limit count rows =
     (let totalPages = - ((- int count) div limit)
      in json_res 200
           (JObj [(''success'', JBool True),
                  (''count'', JNum (int (length rows))),
                  (''pagination'',
                   JObj [(''currentPage'', JNum page),
                         (''totalPages'', JNum totalPages),
                         (''totalTasks'', JNum (int count)),
                         (''limit'', JNum limit),
                         (''hasNext'', JBool (page < totalPages)),
                         (''hasPrev'', JBool (page > 1))]),
                  (''tasks'',
                   JArr (map (task_json [''id'', ''title'', ''description'', ''priority'',
                                         ''endDate'', ''createdAt'', ''updatedAt'']) rows))]))"

definition orderClause :: "string \<Rightarrow> string \<Rightarrow> order_expr \<times> string" where
  "orderClause sortBy order =
     (if sortBy = ''priority'' then (PriorityCase, order)
      else (Column (case sortMapping sortBy of None \<Rightarrow> ''endDate'' | Some c \<Rightarrow> c),
            toUpperCase order))"

definition getTasks :: "db \<Rightarrow> user \<Rightarrow> query \<Rightarrow> response" where
  "getTasks d u q =
     (let page = num_or (parseInt (query_page q)) 1;
          limit = num_or (parseInt (query_limit q)) 10;
          offset = (page - 1) * limit;
          sortBy = str_or (query_sortBy q) ''end_date'';
          order = str_or (query_order q) ''asc''
      in case findAndCountAll (tasks d) (user_id u) limit offset (orderClause sortBy order) of
           Inl err \<Rightarrow> failure 500 ''Server error. Could not fetch tasks.''
         | Inr (count, rows) \<Rightarrow> tasks_ok page limit count rows)"

text \<open>\<open>router.get('/', protect, paginationValidation, validate, getTasks)\<close>.\<close>

definition route_getTasks :: "env \<Rightarrow> db \<Rightarrow> request \<Rightarrow> raw_query \<Rightarrow> response" where
  "route_getTasks e d req rq =
     (case protect e d req of
        Inl r \<Rightarrow> r
      | Inr u \<Rightarrow>
          (case validate (snd (paginationValidation rq)) of
             Some r \<Rightarrow> r
           | None \<Rightarrow> getTasks d u (fst (paginationValidation rq))))"

subsection \<open>Task bodies and their validation\<close>

text \<open>The sanitizer \<open>trim()\<close> on ASCII white space.\<close>

definition trim :: "string \<Rightarrow> string" where
  "trim s = rev (dropWhile is_space (rev (dropWhile is_space s)))"

text \<open>\<open>toString\<close> of express-validator: an absent field is validated as the empty string.\<close>

definition field_string :: "string option \<Rightarrow> string" where
  "field_string v = (case v of None \<Rightarrow> [] | Some s \<Rightarrow> s)"

text \<open>The JSON body of a task request as it arrives, and as the handler reads it.\<close>

record task_body =
  body_title :: "string option"
  body_description :: "string option"
  body_priority :: "string option"
  body_endDate :: "string option"

record task_input =
  input_title :: "string option"
  input_description :: "string option"
  input_priority :: "string option"
  input_endDate :: "int option"

text \<open>
  \<open>taskValidation\<close>: title, priority and endDate are checked whether present or not
  (no chain but the one of description is \<open>optional()\<close>); every validator that fails
  adds its message.
\<close>

definition taskValidation :: "env \<Rightarrow> task_body \<Rightarrow> task_input \<times> verror list" where
  "taskValidation e b =
     (let t = trim (field_string (body_title b));
          p = field_string (body_priority b);
          ed = field_string (body_endDate b)
      in (\<lparr>input_title = map_option trim (body_title b),
           input_description = map_option trim (body_description b),
           input_priority = body_priority b,
           input_endDate = (case body_endDate b of None \<Rightarrow> None | Some s \<Rightarrow> toDate e s)\<rparr>,
          (if t = [] then [(''title'', ''Title is required'')] else []) @
          (if 255 < length t then [(''title'', ''Title cannot exceed 255 characters'')] else []) @
          (if p = [] then [(''priority'', ''Priority is required'')] else []) @
          (if p \<in> set [''low'', ''medium'', ''high''] then []
           else [(''priority'', ''Priority must be low, medium, or high'')]) @
          (if ed = [] then [(''endDate'', ''End date is required'')] else []) @
          (if isISO8601 e ed then []
           else [(''endDate'', ''End date must be a valid date (YYYY-MM-DD)'')])))"

text \<open>
  The validators of the model \<open>Task\<close>, which Sequelize runs on the attributes that are
  written: \<open>notEmpty\<close> (not only white space) and \<open>len: [1, 255]\<close> on the title,
  \<open>isIn\<close> on the priority.  A date is valid by its type here.
\<close>

definition title_errors :: "string \<Rightarrow> verror list" where
  "title_errors t =
     (if list_all is_space t then [(''title'', ''Title cannot be empty'')] else []) @
     (if 1 \<le> length t \<and> length t \<le> 255 then []
      else [(''title'', ''Title must be between 1 and 255 characters'')])"

definition priority_errors :: "string \<Rightarrow> verror list" where
  "priority_errors p =
     (if p \<in> set [''low'', ''medium'', ''high''] then []
      else [(''priority'', ''Priority must be low, medium, or high'')])"

text \<open>The answer to a \<open>SequelizeValidationError\<close>.\<close>

definition validation_error :: "verror list \<Rightarrow> response" where
  "validation_error errors =
     json_res 400
       (JObj [(''success'', JBool False),
              (''message'', JStr ''Validation error''),
              (''errors'',
               JArr (map (\<lambda>err. JObj [(''field'', JStr (fst err)),
                                        (''message'', JStr (snd err))]) errors))])"

subsection \<open>Single-task handlers\<close>

definition getTask :: "db \<Rightarrow> user \<Rightarrow> int \<Rightarrow> response" where
  "getTask d u tid =
     (case findOne (tasks d) tid (user_id u) of
        None \<Rightarrow> failure 404 ''Task not found or you do not have permission to view it.''
      | Some t \<Rightarrow>
          json_res 200 (JObj [(''success'', JBool True), (''task'', task_json all_attributes t)]))"

text \<open>
  \<open>Task.create\<close>: an absent priority takes the default, an absent title or end date
  violates \<open>allowNull: false\<close>, the validators run, and the row is inserted with the
  next id of the sequence and both timestamps set to the current instant.
\<close>

definition createTask :: "env \<Rightarrow> db \<Rightarrow> user \<Rightarrow> task_input \<Rightarrow> response \<times> db" where
  "createTask e d u i =
     (let p = (case input_priority i of None \<Rightarrow> ''medium'' | Some s \<Rightarrow> s);
          errors =
            (case input_title i of
               None \<Rightarrow> [(''title'', ''Task.title cannot be null'')]
             | Some t \<Rightarrow> title_errors t) @
            priority_errors p @
            (case input_endDate i of
               None \<Rightarrow> [(''endDate'', ''Task.endDate cannot be null'')]
             | Some ed \<Rightarrow> [])
      in case (input_title i, input_endDate i) of
           (Some t, Some ed) \<Rightarrow>
             if errors \<noteq> [] then (validation_error errors, d)
             else
               (let row = \<lparr>task_id = tasks_seq d, userId = user_id u, title = t,
                           description = input_description i, priority = p, endDate = ed,
                           createdAt = now e, updatedAt = now e\<rparr>
                in (json_res 201
                      (JObj [(''success'', JBool True),
                             (''message'', JStr ''Task created successfully''),
                             (''task'', task_json all_attributes row)]),
                    d\<lparr>tasks := tasks d @ [row], tasks_seq := tasks_seq d + 1\<rparr>))
         | _ \<Rightarrow> (validation_error errors, d))"

text \<open>
  The four assignments of \<open>updateTask\<close>: \<open>||\<close> keeps the stored value when the
  supplied one is absent or falsy (the empty string, a null date); the description is
  replaced whenever it is not \<open>undefined\<close>.
\<close>

definition assign_fields :: "task \<Rightarrow> task_input \<Rightarrow> task" where
  "assign_fields t i =
     t\<lparr>title := str_or (input_title i) (title t),
       description := (case input_description i of
                         None \<Rightarrow> description t
                       | Some s \<Rightarrow> Some s),
       priority := str_or (input_priority i) (priority t),
       endDate := (case input_endDate i of None \<Rightarrow> endDate t | Some ed \<Rightarrow> ed)\<rparr>"

text \<open>
  \<open>task.save()\<close>: Sequelize validates and writes the attributes that changed, and only
  them; when none changed no UPDATE is issued and the row keeps its timestamp, otherwise
  the row is written with \<open>updatedAt\<close> set to the current instant.
\<close>

definition save :: "env \<Rightarrow> db \<Rightarrow> task \<Rightarrow> task \<Rightarrow> verror list + (task \<times> db)" where
  "save e d old new =
     (let errors =
            (if title new \<noteq> title old then title_errors (title new) else []) @
            (if priority new \<noteq> priority old then priority_errors (priority new) else [])
      in if new = old then Inr (old, d)
         else if errors \<noteq> [] then Inl errors
         else (let row = new\<lparr>updatedAt := now e\<rparr>
               in Inr (row, d\<lparr>tasks := map (\<lambda>t. if task_id t = task_id old then row else t)
                                            (tasks d)\<rparr>)))"

definition updateTask :: "env \<Rightarrow> db \<Rightarrow> user \<Rightarrow> int \<Rightarrow> task_input \<Rightarrow> response \<times> db" where
  "updateTask e d u tid i =
     (case findOne (tasks d) tid (user_id u) of
        None \<Rightarrow>
          (failure 404 ''Task not found or you do not have permission to update it.'', d)
      | Some t \<Rightarrow>
          (case save e d t (assign_fields t i) of
             Inl errors \<Rightarrow> (validation_error errors, d)
           | Inr (row, d') \<Rightarrow>
               (json_res 200
                  (JObj [(''success'', JBool True),
                         (''message'', JStr ''Task updated successfully''),
                         (''task'', task_json all_attributes row)]),
                d')))"

definition deleteTask :: "db \<Rightarrow> user \<Rightarrow> int \<Rightarrow> response \<times> db" where
  "deleteTask d u tid =
     (case findOne (tasks d) tid (user_id u) of
        None \<Rightarrow>
          (failure 404 ''Task not found or you do not have permission to delete it.'', d)
      | Some t \<Rightarrow>
          (json_res 200
             (JObj [(''success'', JBool True), (''message'', JStr ''Task deleted successfully'')]),
           d\<lparr>tasks := filter (\<lambda>r. task_id r \<noteq> task_id t) (tasks d)\<rparr>))"

subsection \<open>The task routes\<close>

text \<open>\<open>router.get('/:id', protect, getTask)\<close>.\<close>

definition route_getTask :: "env \<Rightarrow> db \<Rightarrow> request \<Rightarrow> int \<Rightarrow> response" where
  "route_getTask e d req tid =
     (case protect e d req of Inl r \<Rightarrow> r | Inr u \<Rightarrow> getTask d u tid)"

text \<open>\<open>router.post('/', protect, taskValidation, validate, createTask)\<close>.\<close>

definition route_createTask :: "env \<Rightarrow> db \<Rightarrow> request \<Rightarrow> task_body \<Rightarrow> response \<times> db" where
  "route_createTask e d req b =
     (case protect e d req of
        Inl r \<Rightarrow> (r, d)
      | Inr u \<Rightarrow>
          (case validate (snd (taskValidation e b)) of
             Some r \<Rightarrow> (r, d)
           | None \<Rightarrow> createTask e d u (fst (taskValidation e b))))"

text \<open>\<open>router.put('/:id', protect, taskValidation, validate, updateTask)\<close>.\<close>

definition route_updateTask ::
  "env \<Rightarrow> db \<Rightarrow> request \<Rightarrow> int \<Rightarrow> task_body \<Rightarrow> response \<times> db" where
  "route_updateTask e d req tid b =
     (case protect e d req of
        Inl r \<Rightarrow> (r, d)
      | Inr u \<Rightarrow>
          (case validate (snd (taskValidation e b)) of
             Some r \<Rightarrow> (r, d)
           | None \<Rightarrow> updateTask e d u tid (fst (taskValidation e b))))"

text \<open>\<open>router.delete('/:id', protect, deleteTask)\<close>.\<close>

definition route_deleteTask :: "env \<Rightarrow> db \<Rightarrow> request \<Rightarrow> int \<Rightarrow> response \<times> db" where
  "route_deleteTask e d req tid =
     (case protect e d req of Inl r \<Rightarrow> (r, d) | Inr u \<Rightarrow> deleteTask d u tid)"

section \<open>The auth controller\<close>

text \<open>
  \<open>sendTokenResponse\<close>: the session cookie (seven days, in milliseconds) and the body
  with the token and the three public attributes of the user.
\<close>

definition sendTokenResponse :: "env \<Rightarrow> string \<Rightarrow> int \<Rightarrow> user \<Rightarrow> response" where
  "sendTokenResponse e token statusCode u =
     \<lparr>res_status = statusCode,
      res_body =
        JObj [(''success'', JBool True),
              (''message'', JStr (if statusCode = 201 then ''Registration successful''
                                  else ''Login successful'')),
              (''token'', JStr token),
              (''user'', JObj [(''id'', JNum (user_id u)),
                               (''name'', JStr (name u)),
                               (''email'', JStr (email u))])],
      res_cookie =
        Some \<lparr>cookie_name = ''token'', cookie_value = token,
              cookie_expires = now e + 7 * 24 * 60 * 60 * 1000,
              cookie_httpOnly = True, cookie_sameSite = Some ''strict'',
              cookie_secure = production e\<rparr>\<rparr>"

text \<open>The body of a registration or a login after its validation chain: all fields present.\<close>

record auth_body =
  body_name :: string
  body_email :: string
  body_password :: string

text \<open>The validators of the model \<open>User\<close>.\<close>

definition user_errors :: "env \<Rightarrow> auth_body \<Rightarrow> verror list" where
  "user_errors e b =
     (if list_all is_space (body_name b) then [(''name'', ''Name cannot be empty'')] else []) @
     (if 2 \<le> length (body_name b) \<and> length (body_name b) \<le> 100 then []
      else [(''name'', ''Name must be between 2 and 100 characters'')]) @
     (if isEmail e (body_email b) then [] else [(''email'', ''Must be a valid email address'')]) @
     (if 6 \<le> length (body_password b) \<and> length (body_password b) \<le> 255 then []
      else [(''password'', ''Password must be at least 6 characters'')])"

text \<open>
  The hook \<open>beforeCreate\<close>: a non-empty password is replaced by its bcrypt hash under a
  fresh salt of ten rounds.
\<close>

definition beforeCreate :: "env \<Rightarrow> string \<Rightarrow> string" where
  "beforeCreate e pw = (if pw \<noteq> [] then bcrypt_hash e pw (bcrypt_genSalt e 10) else pw)"

text \<open>\<open>User.prototype.comparePassword\<close>; bcrypt raises when there is no hash to compare with.\<close>

definition comparePassword :: "env \<Rightarrow> user \<Rightarrow> string \<Rightarrow> bool option" where
  "comparePassword e u enteredPassword =
     (case password u of None \<Rightarrow> None | Some h \<Rightarrow> Some (bcrypt_compare e enteredPassword h))"

datatype create_error = SequelizeValidationError "verror list" | SequelizeUniqueConstraintError

text \<open>
  \<open>User.create\<close>: validation, then the hook, then the insertion, which the unique
  index on \<open>email\<close> can refuse.
\<close>

definition User_create :: "env \<Rightarrow> db \<Rightarrow> auth_body \<Rightarrow> create_error + (user \<times> db)" where
  "User_create e d b =
     (if user_errors e b \<noteq> [] then Inl (SequelizeValidationError (user_errors e b))
      else if list_ex (\<lambda>u. email u = body_email b) (users d) then Inl SequelizeUniqueConstraintError
      else (let row = \<lparr>user_id = users_seq d, name = body_name b, email = body_email b,
                         password = Some (beforeCreate e (body_password b)),
                         user_createdAt = now e\<rparr>
            in Inr (row, d\<lparr>users := users d @ [row], users_seq := users_seq d + 1\<rparr>)))"

definition register :: "env \<Rightarrow> db \<Rightarrow> auth_body \<Rightarrow> response \<times> db" where
  "register e d b =
     (case find (\<lambda>u. email u = body_email b) (users d) of
        Some existingUser \<Rightarrow>
          (failure 400 ''Email already registered. Please login instead.'', d)
      | None \<Rightarrow>
          (case User_create e d b of
             Inl (SequelizeValidationError errors) \<Rightarrow> (validation_error errors, d)
           | Inl SequelizeUniqueConstraintError \<Rightarrow>
               (failure 500 ''Server error during registration. Please try again.'', d)
           | Inr (u, d') \<Rightarrow> (sendTokenResponse e (jwt_sign e (user_id u)) 201 u, d')))"

definition login :: "env \<Rightarrow> db \<Rightarrow> auth_body \<Rightarrow> response" where
  "login e d b =
     (case find (\<lambda>u. email u = body_email b) (users d) of
        None \<Rightarrow> failure 401 ''Invalid credentials. Please check your email and password.''
      | Some u \<Rightarrow>
          (case comparePassword e u (body_password b) of
             None \<Rightarrow> failure 500 ''Server error during login. Please try again.''
           | Some isPasswordValid \<Rightarrow>
               if \<not> isPasswordValid
               then failure 401 ''Invalid credentials. Please check your email and password.''
               else sendTokenResponse e (jwt_sign e (user_id u)) 200 u))"

text \<open>\<open>logout\<close> touches the answer only: the cookie is overwritten, nothing is stored.\<close>

definition logout :: "env \<Rightarrow> db \<Rightarrow> response \<times> db" where
  "logout e d =
     (\<lparr>res_status = 200,
       res_body = JObj [(''success'', JBool True), (''message'', JStr ''Logout successful'')],
       res_cookie =
         Some \<lparr>cookie_name = ''token'', cookie_value = ''none'',
               cookie_expires = now e + 10 * 1000,
               cookie_httpOnly = True, cookie_sameSite = None, cookie_secure = False\<rparr>\<rparr>,
      d)"

text \<open>\<open>getMe\<close>; reading an attribute of a user that is not found raises, hence the 500.\<close>

definition getMe :: "db \<Rightarrow> user \<Rightarrow> response" where
  "getMe d req_user =
     (case findByPk_exclude_password (users d) (user_id req_user) of
        None \<Rightarrow> failure 500 ''Server error. Could not fetch user data.''
      | Some u \<Rightarrow>
          json_res 200
            (JObj [(''success'', JBool True),
                   (''user'', JObj [(''id'', JNum (user_id u)),
                                    (''name'', JStr (name u)),
                                    (''email'', JStr (email u)),
                                    (''createdAt'', JNum (user_createdAt u))])]))"

text \<open>\<open>router.post('/logout', protect, logout)\<close> and \<open>router.get('/me', protect, getMe)\<close>.\<close>

definition route_logout :: "env \<Rightarrow> db \<Rightarrow> request \<Rightarrow> response \<times> db" where
  "route_logout e d req = (case protect e d req of Inl r \<Rightarrow> (r, d) | Inr u \<Rightarrow> logout e d)"

definition route_getMe :: "env \<Rightarrow> db \<Rightarrow> request \<Rightarrow> response" where
  "route_getMe e d req = (case protect e d req of Inl r \<Rightarrow> r | Inr u \<Rightarrow> getMe d u)"

section \<open>Predicates of the properties\<close>

text \<open>
  In a list of rows, every row of priority \<open>p\<close> comes before every row of priority
  \<open>q\<close>: no row behind a \<open>q\<close> row has priority \<open>p\<close>.
\<close>

fun precedes_all :: "string \<Rightarrow> string \<Rightarrow> task list \<Rightarrow> bool" where
  "precedes_all p q [] = True"
| "precedes_all p q (t # ts) =
     ((priority t = q \<longrightarrow> list_all (\<lambda>s. priority s \<noteq> p) ts) \<and> precedes_all p q ts)"

text \<open>The JSON body of an answer has a key \<open>password\<close> somewhere.\<close>

definition serializes_password :: "response \<Rightarrow> bool" where
  "serializes_password r = (''password'' \<in> set (json_keys (res_body r)))"

section \<open>A concrete deployment for the examples\<close>

text \<open>
  Two users and five tasks; a JWT library that knows three tokens (for the users 1 and 2
  and for a user 7 who is not stored); toy stand-ins for bcrypt and the date validators.
\<close>

definition example_env :: env where
  "example_env =
     \<lparr>jwt_verify = (\<lambda>t. if t = ''tokenA'' then Inr 1
                        else if t = ''tokenB'' then Inr 2
                        else if t = ''tokenGone'' then Inr 7
                        else if t = ''tokenOld'' then Inl TokenExpiredError
                        else Inl JsonWebTokenError),
      jwt_sign = (\<lambda>i. if i = 1 then ''tokenA'' else if i = 2 then ''tokenB'' else ''tokenGone''),
      bcrypt_genSalt = (\<lambda>rounds. ''$2b$10$salt''),
      bcrypt_hash = (\<lambda>pw salt. salt @ rev pw),
      bcrypt_compare = (\<lambda>pw h. h = ''$2b$10$salt'' @ rev pw),
      isEmail = (\<lambda>s. CHR ''@'' \<in> set s),
      isISO8601 = (\<lambda>s. s = ''2025-12-31'' \<or> s = ''2026-01-15''),
      toDate = (\<lambda>s. if s = ''2025-12-31'' then Some 20453
                      else if s = ''2026-01-15'' then Some 20468 else None),
      now = 1000,
      production = False\<rparr>"

definition example_task :: "int \<Rightarrow> int \<Rightarrow> string \<Rightarrow> task" where
  "example_task i owner p =
     \<lparr>task_id = i, userId = owner, title = ''Write spec'', description = None, priority = p,
      endDate = 20453 - i, createdAt = i, updatedAt = i\<rparr>"

definition example_db :: db where
  "example_db =
     \<lparr>users = [\<lparr>user_id = 1, name = ''Jane'', email = ''jane@x.com'',
                 password = Some ''$2b$10$salt1terces'', user_createdAt = 0\<rparr>,
                \<lparr>user_id = 2, name = ''Bob'', email = ''bob@x.com'',
                 password = Some ''$2b$10$salt2terces'', user_createdAt = 0\<rparr>],
      tasks = [example_task 1 1 ''low'', example_task 2 2 ''high'', example_task 3 1 ''high'',
               example_task 4 1 ''medium'', example_task 5 1 ''high''],
      users_seq = 3,
      tasks_seq = 6\<rparr>"

text \<open>A request of the first user, who sends the token in the header.\<close>

definition example_request :: request where
  "example_request = \<lparr>cookies_token = None, headers_authorization = Some ''Bearer tokenA''\<rparr>"

definition example_user :: user where
  "example_user =
     \<lparr>user_id = 1, name = ''Jane'', email = ''jane@x.com'', password = None, user_createdAt = 0\<rparr>"

section \<open>Ordering: the sort and its keys\<close>

lemma set_insert_by: "set (insert_by le x xs) = insert x (set xs)"
  by (induction xs) auto

lemma set_sort_by: "set (sort_by le xs) = set xs"
  by (induction xs) (auto simp: set_insert_by)

lemma length_insert_by: "length (insert_by le x xs) = Suc (length xs)"
  by (induction xs) auto

lemma length_sort_by: "length (sort_by le xs) = length xs"
  by (induction xs) (auto simp: length_insert_by)

lemma sorted_insert_by:
  assumes total: "\<And>a b. le a b \<or> le b a"
    and trans: "\<And>a b c. le a b \<Longrightarrow> le b c \<Longrightarrow> le a c"
  shows "sorted_wrt le xs \<Longrightarrow> sorted_wrt le (insert_by le x xs)"
proof (induction xs)
  case Nil
  show ?case by simp
next
  case (Cons y ys)
  show ?case
  proof (cases "le x y")
    case True
    have "\<forall>z\<in>set ys. le x z"
      using Cons.prems True trans by auto
    with True Cons.prems show ?thesis by simp
  next
    case False
    then have "le y x" using total by blast
    with False Cons show ?thesis by (auto simp: set_insert_by)
  qed
qed

lemma sorted_sort_by:
  assumes "\<And>a b. le a b \<or> le b a"
    and "\<And>a b c. le a b \<Longrightarrow> le b c \<Longrightarrow> le a c"
  shows "sorted_wrt le (sort_by le xs)"
proof (induction xs)
  case Nil
  show ?case by simp
next
  case (Cons x xs)
  from sorted_insert_by [of le "sort_by le xs" x] assms Cons.IH
  show ?case by auto
qed

lemma key_le_total: "key_le a b \<or> key_le b a"
  by (cases a; cases b) auto

lemma key_le_trans: "key_le a b \<Longrightarrow> key_le b c \<Longrightarrow> key_le a c"
  by (cases a; cases b; cases c) auto

lemma sorted_rows: "sorted_wrt (row_le key desc) (sort_by (row_le key desc) xs)"
proof (rule sorted_sort_by)
  show "row_le key desc a b \<or> row_le key desc b a" for a b
    using key_le_total by (simp add: row_le_def)
  show "row_le key desc a b \<Longrightarrow> row_le key desc b c \<Longrightarrow> row_le key desc a c" for a b c
    using key_le_trans by (auto simp: row_le_def split: if_splits)
qed

lemma row_le_fun:
  "row_le key True = (\<lambda>a b. key_le (key b) (key a))"
  "row_le key False = (\<lambda>a b. key_le (key a) (key b))"
  by (simp_all add: row_le_def fun_eq_iff)

lemma sorted_wrt_page: "sorted_wrt P xs \<Longrightarrow> sorted_wrt P (take n (drop m xs))"
  by (simp add: sorted_wrt_drop sorted_wrt_take)

section \<open>What a validated query gives the handler\<close>

lemma direction_asc: "direction ''asc'' = Some False" "direction ''ASC'' = Some False"
  "direction ''desc'' = Some True" "direction ''DESC'' = Some True"
  by code_simp+

lemma toUpperCase_asc: "toUpperCase ''asc'' = ''ASC''" "toUpperCase ''desc'' = ''DESC''"
  by code_simp+

lemma isInt_value:
  "isInt s mn mx \<Longrightarrow> \<exists>n. js_parseInt s (Some 10) = Some n \<and>
     (case mn of None \<Rightarrow> True | Some lo \<Rightarrow> lo \<le> n) \<and>
     (case mx of None \<Rightarrow> True | Some hi \<Rightarrow> n \<le> hi)"
  by (auto simp: isInt_def Let_def split: option.splits)

lemma validated_page:
  assumes "snd (paginationValidation rq) = []"
  shows "1 \<le> num_or (parseInt (query_page (fst (paginationValidation rq)))) 1"
    and "raw_page rq = None \<Longrightarrow> num_or (parseInt (query_page (fst (paginationValidation rq)))) 1 = 1"
    and "raw_page rq = Some s \<Longrightarrow>
         js_parseInt s (Some 10) = Some (num_or (parseInt (query_page (fst (paginationValidation rq)))) 1)"
proof -
  show "raw_page rq = None \<Longrightarrow> num_or (parseInt (query_page (fst (paginationValidation rq)))) 1 = 1"
    by (simp add: paginationValidation_def parseInt_def num_or_def)
  have ok: "isInt s' (Some 1) None" if "raw_page rq = Some s'" for s'
    using assms that by (auto simp: paginationValidation_def split: if_splits)
  show "raw_page rq = Some s \<Longrightarrow>
         js_parseInt s (Some 10) = Some (num_or (parseInt (query_page (fst (paginationValidation rq)))) 1)"
    using isInt_value [OF ok, of s]
    by (auto simp: paginationValidation_def parseInt_def num_or_def toInt_def)
  show "1 \<le> num_or (parseInt (query_page (fst (paginationValidation rq)))) 1"
  proof (cases "raw_page rq")
    case None
    then show ?thesis by (simp add: paginationValidation_def parseInt_def num_or_def)
  next
    case (Some s')
    with isInt_value [OF ok, of s'] show ?thesis
      by (auto simp: paginationValidation_def parseInt_def num_or_def toInt_def)
  qed
qed

lemma validated_limit:
  assumes "snd (paginationValidation rq) = []"
  shows "1 \<le> num_or (parseInt (query_limit (fst (paginationValidation rq)))) 10"
    and "num_or (parseInt (query_limit (fst (paginationValidation rq)))) 10 \<le> 100"
    and "raw_limit rq = None \<Longrightarrow> num_or (parseInt (query_limit (fst (paginationValidation rq)))) 10 = 10"
    and "raw_limit rq = Some s \<Longrightarrow>
         js_parseInt s (Some 10) = Some (num_or (parseInt (query_limit (fst (paginationValidation rq)))) 10)"
proof -
  show "raw_limit rq = None \<Longrightarrow> num_or (parseInt (query_limit (fst (paginationValidation rq)))) 10 = 10"
    by (simp add: paginationValidation_def parseInt_def num_or_def)
  have ok: "isInt s' (Some 1) (Some 100)" if "raw_limit rq = Some s'" for s'
    using assms that by (auto simp: paginationValidation_def split: if_splits)
  show "raw_limit rq = Some s \<Longrightarrow>
         js_parseInt s (Some 10) = Some (num_or (parseInt (query_limit (fst (paginationValidation rq)))) 10)"
    using isInt_value [OF ok, of s]
    by (auto simp: paginationValidation_def parseInt_def num_or_def toInt_def)
  have "1 \<le> num_or (parseInt (query_limit (fst (paginationValidation rq)))) 10 \<and>
        num_or (parseInt (query_limit (fst (paginationValidation rq)))) 10 \<le> 100"
  proof (cases "raw_limit rq")
    case None
    then show ?thesis
      by (simp add: paginationValidation_def parseInt_def num_or_def)
  next
    case (Some s')
    with isInt_value [OF ok, of s'] show ?thesis
      by (auto simp: paginationValidation_def parseInt_def num_or_def toInt_def)
  qed
  then show "1 \<le> num_or (parseInt (query_limit (fst (paginationValidation rq)))) 10"
    and "num_or (parseInt (query_limit (fst (paginationValidation rq)))) 10 \<le> 100"
    by simp_all
qed

lemma validated_sortBy:
  assumes "snd (paginationValidation rq) = []"
  shows "str_or (query_sortBy (fst (paginationValidation rq))) ''end_date''
           \<in> {''end_date'', ''priority'', ''created_at''}"
  using assms by (auto simp: paginationValidation_def str_or_def split: option.splits if_splits)

lemma validated_order:
  assumes "snd (paginationValidation rq) = []"
  shows "str_or (query_order (fst (paginationValidation rq))) ''asc'' =
           (if raw_order rq = Some ''desc'' then ''desc'' else ''asc'')"
  using assms by (auto simp: paginationValidation_def str_or_def split: option.splits if_splits)

lemma orderClause_valid:
  assumes "sortBy \<in> {''end_date'', ''priority'', ''created_at''}"
    and "order = ''asc'' \<or> order = ''desc''"
  shows "order_key (fst (orderClause sortBy order)) =
           Some (if sortBy = ''priority'' then (\<lambda>t. priority_case (priority t))
                 else if sortBy = ''created_at'' then (\<lambda>t. Some (createdAt t))
                 else (\<lambda>t. Some (endDate t)))"
    and "direction (snd (orderClause sortBy order)) = Some (order = ''desc'')"
  using assms
  by (auto simp: orderClause_def order_key_def sortMapping_def direction_asc toUpperCase_asc)

lemma orderClause_cases:
  "fst (orderClause sortBy order) \<in>
     {PriorityCase, Column ''endDate'', Column ''createdAt''}"
  by (auto simp: orderClause_def sortMapping_def split: option.splits if_splits)


lemma getTasks_validated:
  assumes ok: "snd (paginationValidation rq) = []"
  shows "\<exists>page limit key.
           getTasks d u (fst (paginationValidation rq)) =
             tasks_ok page limit (length (filter (\<lambda>t. userId t = user_id u) (tasks d)))
               (take (nat limit) (drop (nat ((page - 1) * limit))
                  (sort_by (row_le key (raw_order rq = Some ''desc''))
                     (filter (\<lambda>t. userId t = user_id u) (tasks d))))) \<and>
           page = num_or (parseInt (query_page (fst (paginationValidation rq)))) 1 \<and>
           limit = num_or (parseInt (query_limit (fst (paginationValidation rq)))) 10 \<and>
           key = (if raw_sortBy rq = Some ''priority'' then (\<lambda>t. priority_case (priority t))
                 else if raw_sortBy rq = Some ''created_at'' then (\<lambda>t. Some (createdAt t))
                 else (\<lambda>t. Some (endDate t)))"
proof -
  let ?q = "fst (paginationValidation rq)"
  let ?page = "num_or (parseInt (query_page ?q)) 1"
  let ?limit = "num_or (parseInt (query_limit ?q)) 10"
  let ?sortBy = "str_or (query_sortBy ?q) ''end_date''"
  let ?order = "str_or (query_order ?q) ''asc''"
  have p: "1 \<le> ?page" and l: "1 \<le> ?limit"
    using validated_page(1) [OF ok] validated_limit(1) [OF ok] by simp_all
  have sb: "?sortBy \<in> {''end_date'', ''priority'', ''created_at''}"
    by (rule validated_sortBy [OF ok])
  have ord: "?order = (if raw_order rq = Some ''desc'' then ''desc'' else ''asc'')"
    by (rule validated_order [OF ok])
  then have ord2: "?order = ''asc'' \<or> ?order = ''desc''" by auto
  have dir: "direction (snd (orderClause ?sortBy ?order)) = Some (raw_order rq = Some ''desc'')"
    using orderClause_valid(2) [OF sb ord2] ord by auto
  have sb_eq: "(?sortBy = ''priority'') = (raw_sortBy rq = Some ''priority'')"
       "(?sortBy = ''created_at'') = (raw_sortBy rq = Some ''created_at'')"
    using ok by (auto simp: paginationValidation_def str_or_def split: option.splits if_splits)
  have key: "order_key (fst (orderClause ?sortBy ?order)) =
       Some (if raw_sortBy rq = Some ''priority'' then (\<lambda>t. priority_case (priority t))
             else if raw_sortBy rq = Some ''created_at'' then (\<lambda>t. Some (createdAt t))
             else (\<lambda>t. Some (endDate t)))"
    using orderClause_valid(1) [OF sb ord2] sb_eq by simp
  have off: "0 \<le> (?page - 1) * ?limit" using p l by simp
  show ?thesis
    using key dir off l
    by (simp add: getTasks_def findAndCountAll_def Let_def)
qed


section \<open>The listing\<close>

lemma sorted_precedes_all:
  assumes "sorted_wrt R rows"
    and "\<And>a b. priority a = q \<Longrightarrow> priority b = p \<Longrightarrow> \<not> R a b"
  shows "precedes_all p q rows"
  using assms(1)
proof (induction rows)
  case Nil
  show ?case by simp
next
  case (Cons t ts)
  then show ?case using assms(2) by (auto simp: list_all_iff)
qed

lemma route_getTasks_authenticated:
  "protect e d req = Inr u \<Longrightarrow>
   route_getTasks e d req rq =
     (if snd (paginationValidation rq) = [] then getTasks d u (fst (paginationValidation rq))
      else validation_failed (snd (paginationValidation rq)))"
  by (simp add: route_getTasks_def validate_def)

text \<open>
  Claim C1.  An authenticated \<open>GET /tasks\<close> whose query passed validation and asks for
  \<open>sortBy=priority\<close> answers with a page ordered by the rank of the CASE expression
  (high 1, medium 2, low 3): ascending unless \<open>order=desc\<close>, so that every high task
  comes before every medium task and every medium task before every low one, whatever the
  order in which the rows are stored; with \<open>order=desc\<close> the order is the reverse.
\<close>

theorem priority_listing_ordered:
  assumes "protect e d req = Inr u"
    and "snd (paginationValidation rq) = []"
    and "raw_sortBy rq = Some ''priority''"
  shows "\<exists>page limit count rows.
           route_getTasks e d req rq = tasks_ok page limit count rows \<and>
           (if raw_order rq = Some ''desc''
            then sorted_wrt (\<lambda>a b. key_le (priority_case (priority b))
                                          (priority_case (priority a))) rows \<and>
                 precedes_all ''low'' ''medium'' rows \<and>
                 precedes_all ''medium'' ''high'' rows \<and>
                 precedes_all ''low'' ''high'' rows
            else sorted_wrt (\<lambda>a b. key_le (priority_case (priority a))
                                          (priority_case (priority b))) rows \<and>
                 precedes_all ''high'' ''medium'' rows \<and>
                 precedes_all ''medium'' ''low'' rows \<and>
                 precedes_all ''high'' ''low'' rows)"
proof -
  let ?key = "\<lambda>t. priority_case (priority t)"
  let ?desc = "raw_order rq = Some ''desc''"
  obtain page limit key where
    resp: "getTasks d u (fst (paginationValidation rq)) =
             tasks_ok page limit (length (filter (\<lambda>t. userId t = user_id u) (tasks d)))
               (take (nat limit) (drop (nat ((page - 1) * limit))
                  (sort_by (row_le key ?desc) (filter (\<lambda>t. userId t = user_id u) (tasks d)))))"
    and key: "key = (if raw_sortBy rq = Some ''priority'' then (\<lambda>t. priority_case (priority t))
                 else if raw_sortBy rq = Some ''created_at'' then (\<lambda>t. Some (createdAt t))
                 else (\<lambda>t. Some (endDate t)))"
    using getTasks_validated [OF assms(2), of d u] by blast
  let ?rows = "take (nat limit) (drop (nat ((page - 1) * limit))
                  (sort_by (row_le ?key ?desc) (filter (\<lambda>t. userId t = user_id u) (tasks d))))"
  have key': "key = ?key" using key assms(3) by simp
  have sorted: "sorted_wrt (row_le ?key ?desc) ?rows"
    by (rule sorted_wrt_page [OF sorted_rows])
  have route: "route_getTasks e d req rq =
      tasks_ok page limit (length (filter (\<lambda>t. userId t = user_id u) (tasks d))) ?rows"
    using route_getTasks_authenticated [OF assms(1), of rq] assms(2) resp key' by simp
  show ?thesis
  proof (cases ?desc)
    case True
    then have s: "sorted_wrt (\<lambda>a b. key_le (?key b) (?key a)) ?rows"
      using sorted by (simp add: row_le_fun)
    have "precedes_all ''low'' ''medium'' ?rows" "precedes_all ''medium'' ''high'' ?rows"
         "precedes_all ''low'' ''high'' ?rows"
      by (rule sorted_precedes_all [OF s], simp add: priority_case_def)+
    with s True route show ?thesis by auto
  next
    case False
    then have s: "sorted_wrt (\<lambda>a b. key_le (?key a) (?key b)) ?rows"
      using sorted by (simp add: row_le_fun)
    have "precedes_all ''high'' ''medium'' ?rows" "precedes_all ''medium'' ''low'' ?rows"
         "precedes_all ''high'' ''low'' ?rows"
      by (rule sorted_precedes_all [OF s], simp add: priority_case_def)+
    with s False route show ?thesis by auto
  qed
qed

theorem priority_listing_ordered_witness:
  "protect example_env example_db example_request = Inr example_user \<and>
   snd (paginationValidation \<lparr>raw_page = Some ''1'', raw_limit = Some ''3'',
          raw_sortBy = Some ''priority'', raw_order = Some ''asc''\<rparr>) = [] \<and>
   (\<exists>page limit count rows.
      route_getTasks example_env example_db example_request
        \<lparr>raw_page = Some ''1'', raw_limit = Some ''3'',
         raw_sortBy = Some ''priority'', raw_order = Some ''asc''\<rparr> =
        tasks_ok page limit count rows \<and>
      sorted_wrt (\<lambda>a b. key_le (priority_case (priority a)) (priority_case (priority b))) rows \<and>
      precedes_all ''high'' ''medium'' rows \<and>
      precedes_all ''medium'' ''low'' rows \<and>
      precedes_all ''high'' ''low'' rows)"
proof -
  let ?rq = "\<lparr>raw_page = Some ''1'', raw_limit = Some ''3'',
         raw_sortBy = Some ''priority'', raw_order = Some ''asc''\<rparr>"
  have h1: "protect example_env example_db example_request = Inr example_user"
    by code_simp
  have h2: "snd (paginationValidation ?rq) = []"
    by code_simp
  have h3: "raw_sortBy ?rq = Some ''priority''"
    by simp
  from priority_listing_ordered [OF h1 h2 h3] h1 h2 show ?thesis
    by simp
qed

section \<open>Answers and their keys\<close>

lemma protect_Inl: "protect e d req = Inl r \<Longrightarrow> \<exists>msg. r = failure 401 msg"
  by (auto simp: protect_def split: option.splits if_splits sum.splits jwt_error.splits)

lemma failure_keys [simp]: "json_keys (res_body (failure code msg)) = [''success'', ''message'']"
  by (simp add: failure_def json_res_def)

lemma failure_status [simp]: "res_status (failure code msg) = code"
  by (simp add: failure_def json_res_def)

lemma error_list_keys:
  "set (concat (map json_keys
      (map (\<lambda>err. JObj [(''field'', JStr (fst err)), (''message'', JStr (snd err))]) errors)))
     \<subseteq> {''field'', ''message''}"
  by (induction errors) auto

lemma validation_failed_keys:
  "set (json_keys (res_body (validation_failed errors)))
     \<subseteq> {''success'', ''message'', ''errors'', ''field''}"
  using error_list_keys [of errors]
  by (auto simp: validation_failed_def json_res_def)

lemma validation_failed_status [simp]: "res_status (validation_failed errors) = 400"
  by (simp add: validation_failed_def json_res_def)

lemma tasks_ok_status [simp]: "res_status (tasks_ok page limit count rows) = 200"
  by (simp add: tasks_ok_def json_res_def Let_def)

section \<open>Owner scoping of the listing\<close>

lemma getTasks_cases:
  "getTasks d u q = failure 500 ''Server error. Could not fetch tasks.'' \<or>
   (\<exists>page limit rows.
      getTasks d u q =
        tasks_ok page limit (length (filter (\<lambda>t. userId t = user_id u) (tasks d))) rows \<and>
      set rows \<subseteq> set (filter (\<lambda>t. userId t = user_id u) (tasks d)))"
proof (cases "findAndCountAll (tasks d) (user_id u)
                (num_or (parseInt (query_limit q)) 10)
                ((num_or (parseInt (query_page q)) 1 - 1) * num_or (parseInt (query_limit q)) 10)
                (orderClause (str_or (query_sortBy q) ''end_date'')
                             (str_or (query_order q) ''asc''))")
  case (Inl err)
  then show ?thesis by (simp add: getTasks_def Let_def)
next
  case (Inr res)
  obtain count rows where res: "res = (count, rows)" by (cases res)
  from Inr res have "count = length (filter (\<lambda>t. userId t = user_id u) (tasks d))"
    and "set rows \<subseteq> set (filter (\<lambda>t. userId t = user_id u) (tasks d))"
    using set_take_subset set_drop_subset
    by (auto simp: findAndCountAll_def Let_def set_sort_by
             split: option.splits if_splits dest!: in_set_takeD in_set_dropD)
  with Inr res show ?thesis by (auto simp: getTasks_def Let_def)
qed

lemma tasks_key_absent [simp]:
  "''tasks'' \<notin> set (json_keys (res_body (validation_failed errors)))"
  using validation_failed_keys [of errors] by auto

text \<open>
  Claim C2.  Whatever the query (page, limit, sortBy, order), \<open>GET /tasks\<close> either
  answers with a failure that carries no task (401, 400 or 500), or with a listing for the
  authenticated user \<open>u\<close>: every listed row is a stored task whose \<open>userId\<close> is the id of
  \<open>u\<close>, the total count is the number of stored tasks of \<open>u\<close>, and (ids being a primary
  key) no id of a task of another user occurs in the page.
\<close>

theorem listing_owner_scoped:
  "(\<exists>u page limit rows.
      protect e d req = Inr u \<and>
      route_getTasks e d req rq =
        tasks_ok page limit (length (filter (\<lambda>t. userId t = user_id u) (tasks d))) rows \<and>
      (\<forall>t\<in>set rows. t \<in> set (tasks d) \<and> userId t = user_id u) \<and>
      (distinct (map task_id (tasks d)) \<longrightarrow>
         (\<forall>t\<in>set (tasks d). userId t \<noteq> user_id u \<longrightarrow> task_id t \<notin> task_id ` set rows)))
   \<or> (res_status (route_getTasks e d req rq) \<in> {400, 401, 500} \<and>
       ''tasks'' \<notin> set (json_keys (res_body (route_getTasks e d req rq))))"
proof (cases "protect e d req")
  case (Inl r)
  then obtain msg where "r = failure 401 msg" using protect_Inl by blast
  with Inl have "route_getTasks e d req rq = failure 401 msg"
    by (simp add: route_getTasks_def)
  then show ?thesis by simp
next
  case (Inr u)
  show ?thesis
  proof (cases "snd (paginationValidation rq) = []")
    case False
    with Inr have "route_getTasks e d req rq = validation_failed (snd (paginationValidation rq))"
      by (simp add: route_getTasks_authenticated)
    then show ?thesis by simp
  next
    case True
    with Inr have route: "route_getTasks e d req rq = getTasks d u (fst (paginationValidation rq))"
      by (simp add: route_getTasks_authenticated)
    from getTasks_cases [of d u "fst (paginationValidation rq)"] show ?thesis
    proof
      assume "getTasks d u (fst (paginationValidation rq)) =
                failure 500 ''Server error. Could not fetch tasks.''"
      with route show ?thesis by simp
    next
      assume "\<exists>page limit rows.
        getTasks d u (fst (paginationValidation rq)) =
          tasks_ok page limit (length (filter (\<lambda>t. userId t = user_id u) (tasks d))) rows \<and>
        set rows \<subseteq> set (filter (\<lambda>t. userId t = user_id u) (tasks d))"
      then obtain page limit rows where
        resp: "getTasks d u (fst (paginationValidation rq)) =
          tasks_ok page limit (length (filter (\<lambda>t. userId t = user_id u) (tasks d))) rows"
        and own: "set rows \<subseteq> set (filter (\<lambda>t. userId t = user_id u) (tasks d))"
        by blast
      have mine: "\<forall>t\<in>set rows. t \<in> set (tasks d) \<and> userId t = user_id u"
        using own by auto
      have others: "\<forall>t\<in>set (tasks d). userId t \<noteq> user_id u \<longrightarrow> task_id t \<notin> task_id ` set rows"
        if dist: "distinct (map task_id (tasks d))"
      proof (intro ballI impI notI)
        fix t assume t: "t \<in> set (tasks d)" "userId t \<noteq> user_id u" "task_id t \<in> task_id ` set rows"
        then obtain r where r: "r \<in> set rows" "task_id r = task_id t" by auto
        with mine have "r \<in> set (tasks d)" "userId r = user_id u" by auto
        moreover have "inj_on task_id (set (tasks d))"
          using dist by (simp add: distinct_map)
        ultimately have "r = t" using t(1) r(2) by (auto dest: inj_onD)
        with \<open>userId r = user_id u\<close> t(2) show False by simp
      qed
      have "protect e d req = Inr u \<and>
            route_getTasks e d req rq =
              tasks_ok page limit (length (filter (\<lambda>t. userId t = user_id u) (tasks d))) rows \<and>
            (\<forall>t\<in>set rows. t \<in> set (tasks d) \<and> userId t = user_id u) \<and>
            (distinct (map task_id (tasks d)) \<longrightarrow>
               (\<forall>t\<in>set (tasks d). userId t \<noteq> user_id u \<longrightarrow> task_id t \<notin> task_id ` set rows))"
        using Inr route resp mine others by simp
      then show ?thesis by blast
    qed
  qed
qed

theorem listing_owner_scoped_witness:
  "\<exists>u page limit rows.
      protect example_env example_db example_request = Inr u \<and>
      route_getTasks example_env example_db example_request
        \<lparr>raw_page = Some ''2'', raw_limit = Some ''2'', raw_sortBy = Some ''created_at'',
         raw_order = Some ''desc''\<rparr> =
        tasks_ok page limit
          (length (filter (\<lambda>t. userId t = user_id u) (tasks example_db))) rows \<and>
      list_all (\<lambda>t. t \<in> set (tasks example_db) \<and> userId t = user_id u) rows \<and>
      list_all (\<lambda>t. userId t = user_id u \<or> task_id t \<notin> task_id ` set rows) (tasks example_db)"
proof -
  let ?rq = "\<lparr>raw_page = Some ''2'', raw_limit = Some ''2'', raw_sortBy = Some ''created_at'',
         raw_order = Some ''desc''\<rparr>"
  have ok: "res_status (route_getTasks example_env example_db example_request ?rq) = 200"
    by code_simp
  have dist: "distinct (map task_id (tasks example_db))"
    by code_simp
  let ?r = "route_getTasks example_env example_db example_request ?rq"
  have served: "\<not> (res_status ?r \<in> {400, 401, 500} \<and> ''tasks'' \<notin> set (json_keys (res_body ?r)))"
    using ok by simp
  from listing_owner_scoped [of example_env example_db example_request ?rq] served dist
  show ?thesis
    unfolding list_all_iff by blast
qed

section \<open>Pagination\<close>




text \<open>
  Claim C5.  A \<open>GET /tasks\<close> whose supplied limit is above 100 or below 1, or whose
  supplied page is below 1, never produces a listing; once the request is authenticated
  the answer is the validation failure (status 400) whose errors name the field and carry
  its message.  (The auth gate runs first, so an unauthenticated request gets 401.)
\<close>

theorem out_of_range_rejected:
  assumes "(\<exists>s n. raw_limit rq = Some s \<and> js_parseInt s (Some 10) = Some n \<and> (n < 1 \<or> 100 < n)) \<or>
           (\<exists>s n. raw_page rq = Some s \<and> js_parseInt s (Some 10) = Some n \<and> n < 1)"
  shows "(protect e d req = Inr u \<longrightarrow>
            route_getTasks e d req rq = validation_failed (snd (paginationValidation rq)) \<and>
            res_status (route_getTasks e d req rq) = 400) \<and>
         ((\<exists>s n. raw_limit rq = Some s \<and> js_parseInt s (Some 10) = Some n \<and> (n < 1 \<or> 100 < n)) \<longrightarrow>
            (''limit'', ''Limit must be between 1 and 100'') \<in> set (snd (paginationValidation rq))) \<and>
         ((\<exists>s n. raw_page rq = Some s \<and> js_parseInt s (Some 10) = Some n \<and> n < 1) \<longrightarrow>
            (''page'', ''Page must be a positive integer'') \<in> set (snd (paginationValidation rq))) \<and>
         res_status (route_getTasks e d req rq) \<in> {400, 401} \<and>
         ''tasks'' \<notin> set (json_keys (res_body (route_getTasks e d req rq)))"
proof -
  have lim: "(''limit'', ''Limit must be between 1 and 100'') \<in> set (snd (paginationValidation rq))"
    if "raw_limit rq = Some s" "js_parseInt s (Some 10) = Some n" "n < 1 \<or> 100 < n" for s n
  proof -
    have "\<not> isInt s (Some 1) (Some 100)"
      using that by (auto simp: isInt_def Let_def)
    with that(1) show ?thesis by (simp add: paginationValidation_def)
  qed
  have pg: "(''page'', ''Page must be a positive integer'') \<in> set (snd (paginationValidation rq))"
    if "raw_page rq = Some s" "js_parseInt s (Some 10) = Some n" "n < 1" for s n
  proof -
    have "\<not> isInt s (Some 1) None"
      using that by (auto simp: isInt_def Let_def)
    with that(1) show ?thesis by (simp add: paginationValidation_def)
  qed
  from assms lim pg have bad: "snd (paginationValidation rq) \<noteq> []"
    by (metis empty_iff empty_set)
  have auth: "route_getTasks e d req rq = validation_failed (snd (paginationValidation rq))"
    if "protect e d req = Inr u'" for u'
    using that bad by (simp add: route_getTasks_authenticated)
  have rest: "res_status (route_getTasks e d req rq) \<in> {400, 401} \<and>
         ''tasks'' \<notin> set (json_keys (res_body (route_getTasks e d req rq)))"
  proof (cases "protect e d req")
    case (Inl r)
    then obtain msg where "r = failure 401 msg" using protect_Inl by blast
    with Inl have "route_getTasks e d req rq = failure 401 msg"
      by (simp add: route_getTasks_def)
    then show ?thesis by simp
  next
    case (Inr u')
    from auth [OF this] show ?thesis by simp
  qed
  from lim pg auth rest show ?thesis by auto
qed

theorem out_of_range_rejected_witness:
  "(\<exists>s n. raw_limit \<lparr>raw_page = None, raw_limit = Some ''0'', raw_sortBy = None, raw_order = None\<rparr> = Some s \<and>
          js_parseInt s (Some 10) = Some n \<and> (n < 1 \<or> 100 < n)) \<and>
   protect example_env example_db example_request = Inr example_user \<and>
   res_status (route_getTasks example_env example_db example_request
       \<lparr>raw_page = None, raw_limit = Some ''0'', raw_sortBy = None, raw_order = None\<rparr>) = 400 \<and>
   (''limit'', ''Limit must be between 1 and 100'') \<in>
      set (snd (paginationValidation
        \<lparr>raw_page = None, raw_limit = Some ''0'', raw_sortBy = None, raw_order = None\<rparr>)) \<and>
   ''tasks'' \<notin> set (json_keys (res_body (route_getTasks example_env example_db example_request
       \<lparr>raw_page = None, raw_limit = Some ''0'', raw_sortBy = None, raw_order = None\<rparr>)))"
proof -
  let ?rq = "\<lparr>raw_page = None, raw_limit = Some ''0'', raw_sortBy = None, raw_order = None\<rparr>"
  have p: "js_parseInt ''0'' (Some 10) = Some 0"
    by code_simp
  have h: "\<exists>s n. raw_limit ?rq = Some s \<and> js_parseInt s (Some 10) = Some n \<and> (n < 1 \<or> 100 < n)"
    using p by simp
  have a: "protect example_env example_db example_request = Inr example_user"
    by code_simp
  from out_of_range_rejected [OF disjI1 [OF h], of example_env example_db example_request example_user]
    h a show ?thesis
    by blast
qed

section \<open>Single tasks: ownership\<close>

lemma findOne_none_absent:
  "\<forall>t\<in>set ts. task_id t \<noteq> tid \<Longrightarrow> findOne ts tid uid = None"
  by (auto simp: findOne_def find_None_iff)

lemma findOne_none_foreign:
  assumes "distinct (map task_id ts)" and "t \<in> set ts" and "task_id t = tid" and "userId t \<noteq> uid"
  shows "findOne ts tid uid = None"
proof -
  have "inj_on task_id (set ts)" using assms(1) by (simp add: distinct_map)
  then have "\<forall>r\<in>set ts. task_id r = tid \<longrightarrow> r = t"
    using assms(2,3) by (auto dest: inj_onD)
  with assms(4) show ?thesis
    by (auto simp: findOne_def find_None_iff)
qed


lemma route_updateTask_authenticated:
  "protect e d req = Inr u \<Longrightarrow>
   route_updateTask e d req tid b =
     (if snd (taskValidation e b) = [] then updateTask e d u tid (fst (taskValidation e b))
      else (validation_failed (snd (taskValidation e b)), d))"
  by (simp add: route_updateTask_def validate_def)

text \<open>
  Claim C6.  For the requester \<open>u\<close> and a task id, take a store \<open>d1\<close> in which no task
  has that id and a store \<open>d2\<close> in which the task exists but belongs to another user.
  \<open>getTask\<close>, \<open>updateTask\<close> and \<open>deleteTask\<close> answer the same in both: status 404 with
  \<open>success: false\<close> and the handler's one message, and the store is left as it was.  The
  same holds through the routes (for \<open>PUT\<close> the body validation runs before the lookup
  and does not look at the store).
\<close>

theorem not_found_equals_not_owned:
  assumes absent: "\<forall>t\<in>set (tasks d1). task_id t \<noteq> tid"
    and foreign: "t2 \<in> set (tasks d2)" "task_id t2 = tid" "userId t2 \<noteq> user_id u"
    and pk: "distinct (map task_id (tasks d2))"
  shows "getTask d1 u tid = getTask d2 u tid \<and>
         getTask d2 u tid = failure 404 ''Task not found or you do not have permission to view it.'' \<and>
         fst (updateTask e d1 u tid i) = fst (updateTask e d2 u tid i) \<and>
         updateTask e d2 u tid i =
           (failure 404 ''Task not found or you do not have permission to update it.'', d2) \<and>
         fst (deleteTask d1 u tid) = fst (deleteTask d2 u tid) \<and>
         deleteTask d2 u tid =
           (failure 404 ''Task not found or you do not have permission to delete it.'', d2) \<and>
         snd (updateTask e d1 u tid i) = d1 \<and> snd (deleteTask d1 u tid) = d1 \<and>
         (protect e d1 req = Inr u \<and> protect e d2 req = Inr u \<longrightarrow>
            route_getTask e d1 req tid = route_getTask e d2 req tid \<and>
            fst (route_updateTask e d1 req tid b) = fst (route_updateTask e d2 req tid b) \<and>
            fst (route_deleteTask e d1 req tid) = fst (route_deleteTask e d2 req tid) \<and>
            snd (route_updateTask e d2 req tid b) = d2 \<and>
            snd (route_deleteTask e d2 req tid) = d2)"
proof -
  have n1: "findOne (tasks d1) tid (user_id u) = None"
    by (rule findOne_none_absent [OF absent])
  have n2: "findOne (tasks d2) tid (user_id u) = None"
    by (rule findOne_none_foreign [OF pk foreign])
  show ?thesis
    using n1 n2
    by (simp add: getTask_def updateTask_def deleteTask_def route_getTask_def
          route_updateTask_authenticated route_deleteTask_def)
qed

theorem not_found_equals_not_owned_witness:
  "(list_all (\<lambda>t. task_id t \<noteq> 2) (tasks (example_db\<lparr>tasks := [example_task 1 1 ''low'']\<rparr>))) \<and>
   example_task 2 2 ''high'' \<in> set (tasks example_db) \<and>
   userId (example_task 2 2 ''high'') \<noteq> user_id example_user \<and>
   getTask (example_db\<lparr>tasks := [example_task 1 1 ''low'']\<rparr>) example_user 2 =
     getTask example_db example_user 2 \<and>
   getTask example_db example_user 2 =
     failure 404 ''Task not found or you do not have permission to view it.'' \<and>
   deleteTask example_db example_user 2 =
     (failure 404 ''Task not found or you do not have permission to delete it.'', example_db)"
proof -
  let ?d1 = "example_db\<lparr>tasks := [example_task 1 1 ''low'']\<rparr>"
  have a: "\<forall>t\<in>set (tasks ?d1). task_id t \<noteq> 2"
    by (simp add: example_task_def)
  have f: "example_task 2 2 ''high'' \<in> set (tasks example_db)"
    by (simp add: example_db_def)
  have i: "task_id (example_task 2 2 ''high'') = 2"
    by (simp add: example_task_def)
  have o: "userId (example_task 2 2 ''high'') \<noteq> user_id example_user"
    by (simp add: example_task_def example_user_def)
  have pk: "distinct (map task_id (tasks example_db))"
    by code_simp
  from not_found_equals_not_owned [OF a f i o pk] a f o show ?thesis
    by (simp add: list_all_iff)
qed

section \<open>Updating a task\<close>











section \<open>The auth gate\<close>

lemma findByPk_none:
  "\<forall>u\<in>set us. user_id u \<noteq> uid \<Longrightarrow> findByPk_exclude_password us uid = None"
  by (auto simp: findByPk_exclude_password_def find_None_iff)

lemma protect_user_missing:
  assumes "request_token req = Some tok" and "tok \<noteq> []" and "jwt_verify e tok = Inr uid"
    and "\<forall>u\<in>set (users d). user_id u \<noteq> uid"
  shows "protect e d req = Inl (failure 401 ''User not found. Token is invalid.'')"
  using assms by (simp add: protect_def findByPk_none)

text \<open>
  Claim C7.  A request presents a token (in the cookie, or else in the header) that the
  JWT library accepts: well formed, signed with the server's secret, not expired, bound to
  the user id \<open>uid\<close>.  When no stored user has that id, \<open>protect\<close> answers 401 with the
  message ``User not found. Token is invalid.'' and attaches no user, so that every
  protected route answers that 401 and leaves the store alone.  In particular, once the
  row of a user is deleted from the table, every token bound to that user is refused.
\<close>

theorem deleted_user_token_unauthorized:
  assumes "request_token req = Some tok" and "tok \<noteq> []" and "jwt_verify e tok = Inr uid"
  shows "((\<forall>u\<in>set (users d). user_id u \<noteq> uid) \<longrightarrow>
            protect e d req = Inl (failure 401 ''User not found. Token is invalid.'') \<and>
            route_getMe e d req = failure 401 ''User not found. Token is invalid.'' \<and>
            route_logout e d req = (failure 401 ''User not found. Token is invalid.'', d) \<and>
            route_getTasks e d req rq = failure 401 ''User not found. Token is invalid.'' \<and>
            route_getTask e d req tid = failure 401 ''User not found. Token is invalid.'' \<and>
            route_createTask e d req b = (failure 401 ''User not found. Token is invalid.'', d) \<and>
            route_updateTask e d req tid b = (failure 401 ''User not found. Token is invalid.'', d) \<and>
            route_deleteTask e d req tid = (failure 401 ''User not found. Token is invalid.'', d)) \<and>
         protect e (d\<lparr>users := filter (\<lambda>u. user_id u \<noteq> uid) (users d)\<rparr>) req =
           Inl (failure 401 ''User not found. Token is invalid.'')"
proof (intro conjI impI)
  assume gone: "\<forall>u\<in>set (users d). user_id u \<noteq> uid"
  from protect_user_missing [OF assms gone]
  show p: "protect e d req = Inl (failure 401 ''User not found. Token is invalid.'')" .
  from p show "route_getMe e d req = failure 401 ''User not found. Token is invalid.''"
    by (simp add: route_getMe_def)
  from p show "route_logout e d req = (failure 401 ''User not found. Token is invalid.'', d)"
    by (simp add: route_logout_def)
  from p show "route_getTasks e d req rq = failure 401 ''User not found. Token is invalid.''"
    by (simp add: route_getTasks_def)
  from p show "route_getTask e d req tid = failure 401 ''User not found. Token is invalid.''"
    by (simp add: route_getTask_def)
  from p show "route_createTask e d req b = (failure 401 ''User not found. Token is invalid.'', d)"
    by (simp add: route_createTask_def)
  from p show "route_updateTask e d req tid b = (failure 401 ''User not found. Token is invalid.'', d)"
    by (simp add: route_updateTask_def)
  from p show "route_deleteTask e d req tid = (failure 401 ''User not found. Token is invalid.'', d)"
    by (simp add: route_deleteTask_def)
next
  show "protect e (d\<lparr>users := filter (\<lambda>u. user_id u \<noteq> uid) (users d)\<rparr>) req =
           Inl (failure 401 ''User not found. Token is invalid.'')"
    by (rule protect_user_missing [OF assms]) simp
qed

theorem deleted_user_token_unauthorized_witness:
  "request_token \<lparr>cookies_token = Some ''tokenGone'', headers_authorization = None\<rparr> = Some ''tokenGone'' \<and>
   jwt_verify example_env ''tokenGone'' = Inr 7 \<and>
   list_all (\<lambda>u. user_id u \<noteq> 7) (users example_db) \<and>
   protect example_env example_db \<lparr>cookies_token = Some ''tokenGone'', headers_authorization = None\<rparr> =
     Inl (failure 401 ''User not found. Token is invalid.'') \<and>
   protect example_env example_db \<lparr>cookies_token = Some ''tokenB'', headers_authorization = None\<rparr> =
     Inr \<lparr>user_id = 2, name = ''Bob'', email = ''bob@x.com'', password = None, user_createdAt = 0\<rparr> \<and>
   protect example_env (example_db\<lparr>users := filter (\<lambda>u. user_id u \<noteq> 2) (users example_db)\<rparr>)
     \<lparr>cookies_token = Some ''tokenB'', headers_authorization = None\<rparr> =
     Inl (failure 401 ''User not found. Token is invalid.'')"
proof -
  let ?req = "\<lparr>cookies_token = Some ''tokenGone'', headers_authorization = None\<rparr>"
  let ?reqB = "\<lparr>cookies_token = Some ''tokenB'', headers_authorization = None\<rparr>"
  have t: "request_token ?req = Some ''tokenGone''" by code_simp
  have n: "''tokenGone'' \<noteq> []" by simp
  have v: "jwt_verify example_env ''tokenGone'' = Inr 7" by code_simp
  have g: "\<forall>u\<in>set (users example_db). user_id u \<noteq> 7" by (simp add: example_db_def)
  have tB: "request_token ?reqB = Some ''tokenB''" by code_simp
  have nB: "''tokenB'' \<noteq> []" by simp
  have vB: "jwt_verify example_env ''tokenB'' = Inr 2" by code_simp
  have before: "protect example_env example_db ?reqB =
     Inr \<lparr>user_id = 2, name = ''Bob'', email = ''bob@x.com'', password = None, user_createdAt = 0\<rparr>"
    by code_simp
  from deleted_user_token_unauthorized [OF t n v, of example_db]
       deleted_user_token_unauthorized [OF tB nB vB, of example_db]
       t v g before
  show ?thesis by (simp add: list_all_iff)
qed

section \<open>Logout\<close>

lemma split_on_no_sep: "sep \<notin> set s \<Longrightarrow> split_on sep s = [s]"
  by (induction s) auto

lemma bearer_token_header:
  assumes "CHR '' '' \<notin> set tok"
  shows "bearer_token (Some (''Bearer '' @ tok)) = Some tok"
  using split_on_no_sep [OF assms] by (simp add: bearer_token_def)

lemma findByPk_some:
  "find (\<lambda>x. user_id x = uid) us = Some usr \<Longrightarrow>
   findByPk_exclude_password us uid = Some (usr\<lparr>password := None\<rparr>)"
  by (simp add: findByPk_exclude_password_def)

lemma protect_header:
  assumes "\<not> truthy (cookies_token req)"
    and "headers_authorization req = Some (''Bearer '' @ tok)"
    and "tok \<noteq> []" and "CHR '' '' \<notin> set tok"
    and "jwt_verify e tok = Inr uid"
    and "find (\<lambda>x. user_id x = uid) (users d) = Some usr"
  shows "protect e d req = Inr (usr\<lparr>password := None\<rparr>)"
  using assms bearer_token_header [OF assms(4)] findByPk_some [OF assms(6)]
  by (simp add: protect_def request_token_def)

lemma route_logout_db: "snd (route_logout e d req) = d"
  by (cases "protect e d req") (simp_all add: route_logout_def logout_def)

text \<open>
  Claim C10.  \<open>POST /auth/logout\<close> leaves the database as it was (no user and no task is
  created, changed or deleted), whether the auth gate lets the request through or not.
  When it does, the answer is 200 and sets the cookie \<open>token\<close> to the literal \<open>none\<close>,
  expiring ten seconds (10 * 1000 ms) after the current instant.  No token is invalidated:
  after the logout the auth gate answers every request exactly as before it, at any later
  time; in particular a request without a token cookie that sends a token in
  \<open>Authorization: Bearer\<close> which still verifies resolves to the stored user the token is
  bound to.
\<close>

theorem logout_changes_nothing_stored:
  "snd (route_logout e d req) = d \<and>
   (\<forall>u. protect e d req = Inr u \<longrightarrow>
      fst (route_logout e d req) =
        \<lparr>res_status = 200,
         res_body = JObj [(''success'', JBool True), (''message'', JStr ''Logout successful'')],
         res_cookie =
           Some \<lparr>cookie_name = ''token'', cookie_value = ''none'',
                 cookie_expires = now e + 10 * 1000,
                 cookie_httpOnly = True, cookie_sameSite = None, cookie_secure = False\<rparr>\<rparr>) \<and>
   (\<forall>e' req'. protect e' (snd (route_logout e d req)) req' = protect e' d req') \<and>
   (\<forall>e' req' tok uid usr.
      \<not> truthy (cookies_token req') \<and>
      headers_authorization req' = Some (''Bearer '' @ tok) \<and>
      tok \<noteq> [] \<and> CHR '' '' \<notin> set tok \<and>
      jwt_verify e' tok = Inr uid \<and>
      find (\<lambda>x. user_id x = uid) (users d) = Some usr \<longrightarrow>
        protect e' (snd (route_logout e d req)) req' = Inr (usr\<lparr>password := None\<rparr>) \<and>
        user_id usr = uid)"
proof (intro conjI allI impI)
  show "snd (route_logout e d req) = d" by (rule route_logout_db)
next
  fix u assume "protect e d req = Inr u"
  then show "fst (route_logout e d req) =
        \<lparr>res_status = 200,
         res_body = JObj [(''success'', JBool True), (''message'', JStr ''Logout successful'')],
         res_cookie =
           Some \<lparr>cookie_name = ''token'', cookie_value = ''none'',
                 cookie_expires = now e + 10 * 1000,
                 cookie_httpOnly = True, cookie_sameSite = None, cookie_secure = False\<rparr>\<rparr>"
    by (simp add: route_logout_def logout_def)
next
  fix e' :: env and req' :: request
  show "protect e' (snd (route_logout e d req)) req' = protect e' d req'"
    by (simp add: route_logout_db)
next
  fix e' :: env and req' :: request and tok :: string and uid :: int and usr :: user
  assume h: "\<not> truthy (cookies_token req') \<and>
      headers_authorization req' = Some (''Bearer '' @ tok) \<and>
      tok \<noteq> [] \<and> CHR '' '' \<notin> set tok \<and>
      jwt_verify e' tok = Inr uid \<and>
      find (\<lambda>x. user_id x = uid) (users d) = Some usr"
  then show "protect e' (snd (route_logout e d req)) req' = Inr (usr\<lparr>password := None\<rparr>)"
    by (simp add: route_logout_db protect_header)
  from h show "user_id usr = uid" by (auto simp: find_Some_iff)
qed

theorem logout_changes_nothing_stored_witness:
  "protect example_env example_db example_request = Inr example_user \<and>
   route_logout example_env example_db example_request =
     (\<lparr>res_status = 200,
       res_body = JObj [(''success'', JBool True), (''message'', JStr ''Logout successful'')],
       res_cookie =
         Some \<lparr>cookie_name = ''token'', cookie_value = ''none'', cookie_expires = 11000,
               cookie_httpOnly = True, cookie_sameSite = None, cookie_secure = False\<rparr>\<rparr>,
      example_db) \<and>
   protect (example_env\<lparr>now := 5000\<rparr>)
     (snd (route_logout example_env example_db example_request)) example_request =
     Inr example_user"
proof -
  have a: "protect example_env example_db example_request = Inr example_user"
    by code_simp
  have n: "now example_env + 10 * 1000 = 11000"
    by code_simp
  have after: "protect (example_env\<lparr>now := 5000\<rparr>) example_db example_request = Inr example_user"
    by code_simp
  from logout_changes_nothing_stored [of example_env example_db example_request] a
  have "snd (route_logout example_env example_db example_request) = example_db"
    and "fst (route_logout example_env example_db example_request) =
        \<lparr>res_status = 200,
         res_body = JObj [(''success'', JBool True), (''message'', JStr ''Logout successful'')],
         res_cookie =
           Some \<lparr>cookie_name = ''token'', cookie_value = ''none'',
                 cookie_expires = now example_env + 10 * 1000,
                 cookie_httpOnly = True, cookie_sameSite = None, cookie_secure = False\<rparr>\<rparr>"
    by blast+
  with a n after show ?thesis
    by (simp add: prod_eq_iff)
qed


section \<open>The password attribute in answers\<close>

lemma serializes_json_res [simp]:
  "serializes_password (json_res code j) = (''password'' \<in> set (json_keys j))"
  by (simp add: serializes_password_def json_res_def)

lemma failure_clean [simp]: "\<not> serializes_password (failure code msg)"
  by (simp add: serializes_password_def failure_def json_res_def)

lemma error_objects_clean:
  "''password'' \<notin> set (concat (map json_keys
      (map (\<lambda>err. JObj [(''field'', JStr (fst err)), (''message'', JStr (snd err))]) errors)))"
  by (induction errors) auto

lemma validation_failed_clean [simp]: "\<not> serializes_password (validation_failed errors)"
  using error_objects_clean [of errors]
  by (simp add: serializes_password_def validation_failed_def json_res_def)

lemma validation_error_clean [simp]: "\<not> serializes_password (validation_error errors)"
  using error_objects_clean [of errors]
  by (simp add: serializes_password_def validation_error_def json_res_def)

lemma leaf_object_keys:
  assumes "\<forall>kv\<in>set kvs. json_keys (snd kv) = []"
  shows "set (json_keys (JObj (filter P kvs))) \<subseteq> fst ` set kvs"
  using assms by (induction kvs) auto

lemma task_json_keys: "set (json_keys (task_json attributes t)) \<subseteq> set all_attributes"
proof -
  let ?kvs = "[(''id'', JNum (task_id t)),
        (''userId'', JNum (userId t)),
        (''title'', JStr (title t)),
        (''description'', (case description t of None \<Rightarrow> JNull | Some s \<Rightarrow> JStr s)),
        (''priority'', JStr (priority t)),
        (''endDate'', JNum (endDate t)),
        (''createdAt'', JNum (createdAt t)),
        (''updatedAt'', JNum (updatedAt t))]"
  have "\<forall>kv\<in>set ?kvs. json_keys (snd kv) = []"
    by (simp split: option.splits)
  from leaf_object_keys [OF this, of "\<lambda>kv. fst kv \<in> set attributes"]
  show ?thesis
    unfolding task_json_def all_attributes_def by simp
qed

lemma task_json_clean: "''password'' \<notin> set (json_keys (task_json attributes t))"
  using task_json_keys [of attributes t] by (auto simp: all_attributes_def)

lemma task_list_clean:
  "''password'' \<notin> set (concat (map json_keys (map (task_json attributes) rows)))"
  by (induction rows) (auto simp: task_json_clean)

lemma tasks_ok_clean [simp]: "\<not> serializes_password (tasks_ok page limit count rows)"
  using task_list_clean [of _ rows]
  by (simp add: serializes_password_def tasks_ok_def json_res_def Let_def)

lemma sendTokenResponse_keys:
  "json_keys (res_body (sendTokenResponse e token code u)) =
     [''success'', ''message'', ''token'', ''user'', ''id'', ''name'', ''email'']"
  by (simp add: sendTokenResponse_def)

lemma sendTokenResponse_clean [simp]: "\<not> serializes_password (sendTokenResponse e token code u)"
  by (simp add: serializes_password_def sendTokenResponse_keys)

lemma getTasks_clean [simp]: "\<not> serializes_password (getTasks d u q)"
  using getTasks_cases [of d u q] by auto

lemma getTask_clean [simp]: "\<not> serializes_password (getTask d u tid)"
  by (auto simp: getTask_def task_json_clean
           split: option.splits)

lemma createTask_clean [simp]: "\<not> serializes_password (fst (createTask e d u i))"
  by (auto simp: createTask_def Let_def
                 task_json_clean
           split: option.splits)

lemma updateTask_clean [simp]: "\<not> serializes_password (fst (updateTask e d u tid i))"
  by (auto simp: updateTask_def
                 task_json_clean
           split: option.splits sum.splits)

lemma deleteTask_clean [simp]: "\<not> serializes_password (fst (deleteTask d u tid))"
  by (auto simp: deleteTask_def split: option.splits)

lemma register_clean [simp]: "\<not> serializes_password (fst (register e d b))"
  by (auto simp: register_def split: option.splits sum.splits create_error.splits)

lemma login_clean [simp]: "\<not> serializes_password (login e d b)"
  by (auto simp: login_def split: option.splits)

lemma logout_clean [simp]: "\<not> serializes_password (fst (logout e d))"
  by (simp add: logout_def serializes_password_def)

lemma getMe_clean [simp]: "\<not> serializes_password (getMe d u)"
  by (auto simp: getMe_def
           split: option.splits)

lemma protect_failure_clean: "protect e d req = Inl r \<Longrightarrow> \<not> serializes_password r"
  using protect_Inl by fastforce

lemma protect_excludes_password: "protect e d req = Inr u \<Longrightarrow> password u = None"
  by (auto simp: protect_def findByPk_exclude_password_def
           split: option.splits if_splits sum.splits jwt_error.splits)

lemma selected_object_keys:
  assumes "\<forall>kv\<in>set kvs. json_keys (snd kv) = []"
  shows "set (json_keys (JObj (filter (\<lambda>kv. fst kv \<in> A) kvs))) \<subseteq> A"
  using assms by (induction kvs) auto

lemma task_json_selected: "set (json_keys (task_json attributes t)) \<subseteq> set attributes"
proof -
  let ?kvs = "[(''id'', JNum (task_id t)),
        (''userId'', JNum (userId t)),
        (''title'', JStr (title t)),
        (''description'', (case description t of None \<Rightarrow> JNull | Some s \<Rightarrow> JStr s)),
        (''priority'', JStr (priority t)),
        (''endDate'', JNum (endDate t)),
        (''createdAt'', JNum (createdAt t)),
        (''updatedAt'', JNum (updatedAt t))]"
  have "\<forall>kv\<in>set ?kvs. json_keys (snd kv) = []"
    by (simp split: option.splits)
  from selected_object_keys [OF this, of "set attributes"]
  show ?thesis
    unfolding task_json_def by simp
qed

lemma task_list_selected:
  "set (concat (map json_keys (map (task_json attributes) rows))) \<subseteq> set attributes"
  using task_json_selected by (induction rows) auto

lemma tasks_ok_keys:
  "set (json_keys (res_body (tasks_ok page limit count rows))) \<subseteq>
     {''success'', ''message'', ''count'', ''pagination'', ''currentPage'', ''totalPages'',
      ''totalTasks'', ''limit'', ''hasNext'', ''hasPrev'', ''tasks'',
      ''id'', ''title'', ''description'', ''priority'', ''endDate'', ''createdAt'', ''updatedAt''}"
    (is "_ \<subseteq> ?S")
proof -
  let ?A = "[''id'', ''title'', ''description'', ''priority'', ''endDate'', ''createdAt'', ''updatedAt'']"
  let ?fixed = "[''success'', ''count'', ''pagination'', ''currentPage'', ''totalPages'',
                 ''totalTasks'', ''limit'', ''hasNext'', ''hasPrev'', ''tasks'']"
  have k: "json_keys (res_body (tasks_ok page limit count rows)) =
             ?fixed @ concat (map json_keys (map (task_json ?A) rows))"
    by (simp add: tasks_ok_def json_res_def Let_def)
  have "set ?fixed \<subseteq> ?S" by simp
  moreover have "set ?A \<subseteq> ?S" by simp
  with task_list_selected [of ?A rows]
  have "set (concat (map json_keys (map (task_json ?A) rows))) \<subseteq> ?S"
    by (rule subset_trans)
  ultimately show ?thesis
    unfolding k set_append by (rule Un_least)
qed

lemma getTasks_keys:
  "set (json_keys (res_body (getTasks d u q))) \<subseteq>
     {''success'', ''message'', ''count'', ''pagination'', ''currentPage'', ''totalPages'',
      ''totalTasks'', ''limit'', ''hasNext'', ''hasPrev'', ''tasks'',
      ''id'', ''title'', ''description'', ''priority'', ''endDate'', ''createdAt'', ''updatedAt''}"
proof -
  from getTasks_cases [of d u q] show ?thesis
  proof
    assume "getTasks d u q = failure 500 ''Server error. Could not fetch tasks.''"
    then show ?thesis by simp
  next
    assume "\<exists>page limit rows.
      getTasks d u q =
        tasks_ok page limit (length (filter (\<lambda>t. userId t = user_id u) (tasks d))) rows \<and>
      set rows \<subseteq> set (filter (\<lambda>t. userId t = user_id u) (tasks d))"
    then obtain page limit rows where
      "getTasks d u q =
         tasks_ok page limit (length (filter (\<lambda>t. userId t = user_id u) (tasks d))) rows"
      by blast
    then show ?thesis by (simp only: tasks_ok_keys)
  qed
qed

lemma find_password_update:
  "find (\<lambda>x. user_id x = uid) (map (\<lambda>x. x\<lparr>password := f x\<rparr>) us) =
   map_option (\<lambda>x. x\<lparr>password := f x\<rparr>) (find (\<lambda>x. user_id x = uid) us)"
  by (induction us) auto

lemma findByPk_password_independent:
  "findByPk_exclude_password (map (\<lambda>x. x\<lparr>password := f x\<rparr>) us) uid =
   findByPk_exclude_password us uid"
  by (simp add: findByPk_exclude_password_def find_password_update option.map_comp o_def)

lemma protect_password_independent:
  "protect e (d\<lparr>users := map (\<lambda>x. x\<lparr>password := f x\<rparr>) (users d)\<rparr>) req = protect e d req"
  by (auto simp: protect_def findByPk_password_independent
           split: option.splits sum.splits jwt_error.splits)

lemma getMe_password_independent:
  "getMe (d\<lparr>users := map (\<lambda>x. x\<lparr>password := f x\<rparr>) (users d)\<rparr>) u = getMe d u"
  by (simp add: getMe_def findByPk_password_independent)

lemma register_created:
  "res_status (fst (register e d b)) = 201 \<Longrightarrow>
   \<exists>token u. fst (register e d b) = sendTokenResponse e token 201 u"
  by (auto simp: register_def validation_error_def json_res_def
           split: option.splits sum.splits create_error.splits)

lemma login_ok:
  "res_status (login e d b) = 200 \<Longrightarrow>
   \<exists>token u. login e d b = sendTokenResponse e token 200 u"
  by (auto simp: login_def split: option.splits if_splits)

lemma route_clean:
  "\<not> serializes_password (fst (route_logout e d req))"
  "\<not> serializes_password (route_getMe e d req)"
  "\<not> serializes_password (route_getTasks e d req rq)"
  "\<not> serializes_password (route_getTask e d req tid)"
  "\<not> serializes_password (fst (route_createTask e d req tb))"
  "\<not> serializes_password (fst (route_updateTask e d req tid tb))"
  "\<not> serializes_password (fst (route_deleteTask e d req tid))"
  using protect_failure_clean [of e d req]
  by (auto simp: route_logout_def route_getMe_def route_getTasks_def route_getTask_def
                 route_createTask_def route_updateTask_def route_deleteTask_def validate_def
           split: sum.splits)

text \<open>
  Claim C9.  No answer of any endpoint has a \<open>password\<close> key in its JSON body:
  register and login (a success is \<open>sendTokenResponse\<close>, whose body has the keys
  success, message, token, user, id, name and email, and which does not depend on the
  password of the user), logout, \<open>GET /auth/me\<close> (which does not depend on the stored
  passwords), the listing (whose keys are the pagination keys and the seven selected task
  attributes) and the single-task routes, failures of the auth gate and of validation
  included.  The user that the auth gate attaches to the request has no password
  attribute, and the gate's result does not depend on the stored passwords.
\<close>

theorem password_never_serialized:
  "\<not> serializes_password (fst (register e d ab)) \<and>
   \<not> serializes_password (login e d ab) \<and>
   (res_status (fst (register e d ab)) = 201 \<longrightarrow>
      (\<exists>token u. fst (register e d ab) = sendTokenResponse e token 201 u)) \<and>
   (res_status (login e d ab) = 200 \<longrightarrow>
      (\<exists>token u. login e d ab = sendTokenResponse e token 200 u)) \<and>
   json_keys (res_body (sendTokenResponse e token code u)) =
     [''success'', ''message'', ''token'', ''user'', ''id'', ''name'', ''email''] \<and>
   sendTokenResponse e token code (u\<lparr>password := p\<rparr>) = sendTokenResponse e token code u \<and>
   \<not> serializes_password (fst (route_logout e d req)) \<and>
   \<not> serializes_password (route_getMe e d req) \<and>
   getMe (d\<lparr>users := map (\<lambda>x. x\<lparr>password := f x\<rparr>) (users d)\<rparr>) u = getMe d u \<and>
   \<not> serializes_password (route_getTasks e d req rq) \<and>
   set (json_keys (res_body (getTasks d u q))) \<subseteq>
     {''success'', ''message'', ''count'', ''pagination'', ''currentPage'', ''totalPages'',
      ''totalTasks'', ''limit'', ''hasNext'', ''hasPrev'', ''tasks'',
      ''id'', ''title'', ''description'', ''priority'', ''endDate'', ''createdAt'', ''updatedAt''} \<and>
   \<not> serializes_password (route_getTask e d req tid) \<and>
   \<not> serializes_password (fst (route_createTask e d req tb)) \<and>
   \<not> serializes_password (fst (route_updateTask e d req tid tb)) \<and>
   \<not> serializes_password (fst (route_deleteTask e d req tid)) \<and>
   (\<forall>u'. protect e d req = Inr u' \<longrightarrow> password u' = None) \<and>
   protect e (d\<lparr>users := map (\<lambda>x. x\<lparr>password := f x\<rparr>) (users d)\<rparr>) req = protect e d req"
  using register_created [of e d ab] login_ok [of e d ab] getTasks_keys [of d u q]
    route_clean [of e d req] protect_excludes_password [of e d req]
  by (simp add: sendTokenResponse_keys sendTokenResponse_def
        getMe_password_independent protect_password_independent)

theorem password_never_serialized_witness:
  "protect example_env example_db example_request = Inr example_user \<and>
   password example_user = None \<and>
   res_status (login example_env example_db
      \<lparr>body_name = [], body_email = ''jane@x.com'', body_password = ''secret1''\<rparr>) = 200 \<and>
   (\<exists>token u. login example_env example_db
      \<lparr>body_name = [], body_email = ''jane@x.com'', body_password = ''secret1''\<rparr> =
        sendTokenResponse example_env token 200 u) \<and>
   \<not> serializes_password (login example_env example_db
      \<lparr>body_name = [], body_email = ''jane@x.com'', body_password = ''secret1''\<rparr>) \<and>
   \<not> serializes_password (route_getMe example_env example_db example_request)"
proof -
  let ?b = "\<lparr>body_name = [], body_email = ''jane@x.com'', body_password = ''secret1''\<rparr>"
  have a: "protect example_env example_db example_request = Inr example_user"
    by code_simp
  have l: "res_status (login example_env example_db ?b) = 200"
    by code_simp
  from password_never_serialized
    [of example_env example_db ?b _ _ _ _ example_request]
    a l
  show ?thesis by simp
qed

end
